theory Spec2Isabelle
  imports Main "HOL-Library.AList"
begin

section \<open>Python values\<close>

text \<open>
  The database of \<^verbatim>\<open>db.py\<close> is one Python dictionary, written with \<^verbatim>\<open>json.dumps\<close> and
  read back with \<^verbatim>\<open>json.loads\<close>. Its values are the JSON-shaped Python values: \<^verbatim>\<open>None\<close>,
  booleans, integers, strings, lists and dictionaries with string keys. A dictionary is an
  association list in insertion order (Python dictionaries keep insertion order); its keys are
  distinct in every dictionary that Python can build. Floating-point numbers are left out of
  the model. These are the values that a caller passes as column values, filters and
  updates, and the values that \<^verbatim>\<open>read\<close> hands back. The dictionaries that are rows of a table
  are objects: \<^verbatim>\<open>insert\<close> stores the caller's dictionary itself and \<^verbatim>\<open>update\<close> changes it in
  place, so a dictionary inserted twice is one object in two places. Row objects are
  modelled below; the values inside a row are plain values.
\<close>

datatype pyval =
    PNone
  | PBool bool
  | PInt int
  | PStr string
  | PList "pyval list"
  | PDict "(string \<times> pyval) list"

type_synonym pydict = "(string \<times> pyval) list"

text \<open>
  The exceptions the code can raise. The five \<^verbatim>\<open>ValueError\<close>s of \<^verbatim>\<open>db.py\<close> are told apart
  by their message; \<^verbatim>\<open>KeyError\<close>, \<^verbatim>\<open>TypeError\<close> and \<^verbatim>\<open>AttributeError\<close> are raised by the
  Python operations themselves; \<^verbatim>\<open>InvalidToken\<close> is raised by \<^verbatim>\<open>Fernet.decrypt\<close> and
  \<^verbatim>\<open>JSONDecodeError\<close> by \<^verbatim>\<open>json.loads\<close>.
\<close>

datatype message =
    TableAlreadyExists string
      \<comment> \<open>\<^verbatim>\<open>Table '<name>' already exists.\<close>\<close>
  | ColumnsMustBeListOfStrings
      \<comment> \<open>\<^verbatim>\<open>Columns must be a list of strings.\<close>\<close>
  | TableDoesNotExist string
      \<comment> \<open>\<^verbatim>\<open>Table '<name>' does not exist.\<close>\<close>
  | RowDoesNotMatch
      \<comment> \<open>\<^verbatim>\<open>Row does not match table columns.\<close>\<close>
  | ColumnDoesNotExist string string
      \<comment> \<open>\<^verbatim>\<open>Column '<key>' does not exist in table '<name>'.\<close>\<close>

datatype error =
    ValueError message
  | KeyError string
  | TypeError
  | AttributeError
  | InvalidToken
  | JSONDecodeError

subsection \<open>Equality\<close>

text \<open>
  Python's \<^verbatim>\<open>==\<close> on these values: \<^verbatim>\<open>bool\<close> is a subclass of \<^verbatim>\<open>int\<close>, so \<^verbatim>\<open>True == 1\<close> and
  \<^verbatim>\<open>False == 0\<close>; lists are equal when they have the same length and equal elements in
  order; dictionaries are equal when they have the same number of keys and every key of the
  one is a key of the other with an equal value, whatever the order.
\<close>

fun py_eq :: "pyval \<Rightarrow> pyval \<Rightarrow> bool" where
  "py_eq PNone PNone = True"
| "py_eq (PBool a) (PBool b) = (a = b)"
| "py_eq (PBool a) (PInt j) = ((if a then 1 else 0) = j)"
| "py_eq (PInt i) (PBool b) = (i = (if b then 1 else 0))"
| "py_eq (PInt i) (PInt j) = (i = j)"
| "py_eq (PStr s) (PStr t) = (s = t)"
| "py_eq (PList []) (PList ys) = (ys = [])"
| "py_eq (PList (x # xs)) (PList ys) =
     (case ys of [] \<Rightarrow> False | y # ys' \<Rightarrow> py_eq x y \<and> py_eq (PList xs) (PList ys'))"
| "py_eq (PDict d) (PDict e) =
     (length d = length e \<and>
      list_all (\<lambda>(k, v). case map_of e k of None \<Rightarrow> False | Some w \<Rightarrow> py_eq v w) d)"
| "py_eq _ _ = False"

subsection \<open>Operations on values\<close>

text \<open>\<^verbatim>\<open>obj[key]\<close> with a string key: only a dictionary can be subscripted by a string.\<close>

fun getitem :: "pyval \<Rightarrow> string \<Rightarrow> error + pyval" where
  "getitem (PDict d) k = (case map_of d k of None \<Rightarrow> Inl (KeyError k) | Some v \<Rightarrow> Inr v)"
| "getitem _ k = Inl TypeError"

text \<open>
  \<^verbatim>\<open>obj[key] = value\<close> with a string key: an existing key keeps its place, a new key goes
  to the end.
\<close>

fun setitem :: "pyval \<Rightarrow> string \<Rightarrow> pyval \<Rightarrow> error + pyval" where
  "setitem (PDict d) k v = Inr (PDict (AList.update k v d))"
| "setitem _ k v = Inl TypeError"

text \<open>\<^verbatim>\<open>obj.get(key)\<close>: a method of dictionaries only; a missing key gives \<^verbatim>\<open>None\<close>.\<close>

fun get_method :: "pyval \<Rightarrow> string \<Rightarrow> error + pyval" where
  "get_method (PDict d) k = Inr (case map_of d k of None \<Rightarrow> PNone | Some v \<Rightarrow> v)"
| "get_method _ k = Inl AttributeError"

text \<open>Iterating over a value: a list gives its elements, a dictionary its keys, a string its
  characters; the other values are not iterable.\<close>

fun iter :: "pyval \<Rightarrow> error + pyval list" where
  "iter (PList xs) = Inr xs"
| "iter (PDict d) = Inr (map (\<lambda>(k, v). PStr k) d)"
| "iter (PStr s) = Inr (map (\<lambda>c. PStr [c]) s)"
| "iter _ = Inl TypeError"

text \<open>\<^verbatim>\<open>len(obj)\<close>.\<close>

fun len :: "pyval \<Rightarrow> error + int" where
  "len (PList xs) = Inr (int (length xs))"
| "len (PDict d) = Inr (int (length d))"
| "len (PStr s) = Inr (int (length s))"
| "len _ = Inl TypeError"

text \<open>\<^verbatim>\<open>s in t\<close> for two strings: \<^verbatim>\<open>s\<close> occurs in \<^verbatim>\<open>t\<close> as a contiguous run.\<close>

fun is_prefix :: "string \<Rightarrow> string \<Rightarrow> bool" where
  "is_prefix [] t = True"
| "is_prefix (c # s) [] = False"
| "is_prefix (c # s) (d # t) = (c = d \<and> is_prefix s t)"

fun is_substring :: "string \<Rightarrow> string \<Rightarrow> bool" where
  "is_substring s [] = (s = [])"
| "is_substring s (d # t) = (is_prefix s (d # t) \<or> is_substring s t)"

text \<open>\<^verbatim>\<open>key in obj\<close> for a string key: a key of a dictionary, an element of a list
  (compared with \<^verbatim>\<open>==\<close>), a substring of a string.\<close>

fun contains :: "string \<Rightarrow> pyval \<Rightarrow> error + bool" where
  "contains k (PDict d) = Inr (k \<in> set (map fst d))"
| "contains k (PList xs) = Inr (list_ex (py_eq (PStr k)) xs)"
| "contains k (PStr s) = Inr (is_substring k s)"
| "contains k _ = Inl TypeError"

text \<open>\<^verbatim>\<open>isinstance(v, str)\<close>.\<close>

fun is_str :: "pyval \<Rightarrow> bool" where
  "is_str (PStr s) = True"
| "is_str _ = False"

text \<open>Lists and dictionaries cannot be members of a set.\<close>

fun hashable :: "pyval \<Rightarrow> bool" where
  "hashable (PList xs) = False"
| "hashable (PDict d) = False"
| "hashable _ = True"

text \<open>\<^verbatim>\<open>set(obj)\<close>: the elements of the iteration, which must all be hashable. The set is
  only ever compared with a set of strings, where Python's equality of elements and HOL's
  agree (two sets of which one holds strings only are equal in Python exactly when they are
  equal here).\<close>

definition py_set :: "pyval \<Rightarrow> error + pyval set" where
  "py_set v =
     (case iter v of
        Inl e \<Rightarrow> Inl e
      | Inr xs \<Rightarrow> if list_all hashable xs then Inr (set xs) else Inl TypeError)"

text \<open>\<^verbatim>\<open>obj.keys()\<close>: a method of dictionaries only.\<close>

fun keys_method :: "pyval \<Rightarrow> error + string list" where
  "keys_method (PDict d) = Inr (map fst d)"
| "keys_method _ = Inl AttributeError"

section \<open>Row objects and the database\<close>

text \<open>
  The heap holds the dictionaries that a caller hands to \<^verbatim>\<open>insert\<close> and may hand to it
  again, each at an address. An element of a table's list is a cell: \<open>Ref a\<close> is the
  dictionary at address \<open>a\<close>, which may be the element of other cells too; \<open>Val v\<close> is an
  object that is the element of this cell only, as are the rows that \<^verbatim>\<open>json.loads\<close> builds.
\<close>

type_synonym heap = "nat \<Rightarrow> pydict"

datatype cell = Val pyval | Ref nat

fun content :: "heap \<Rightarrow> cell \<Rightarrow> pyval" where
  "content h (Val v) = v"
| "content h (Ref a) = PDict (h a)"

text \<open>
  A value of the dictionary \<^verbatim>\<open>self.database\<close> is a list of cells or a plain value; a plain
  list is a list whose elements are in no other cell. \<^verbatim>\<open>self.database\<close> itself is a
  dictionary of such values, or (after \<^verbatim>\<open>json.loads\<close> of a file that holds something else) a
  plain value.
\<close>

datatype slot = Plain pyval | Rows "cell list"

datatype dbase = Dict "(string \<times> slot) list" | Other pyval

text \<open>The value that a reader of the slot, or of the whole database, sees.\<close>

fun view :: "heap \<Rightarrow> slot \<Rightarrow> pyval" where
  "view h (Plain v) = v"
| "view h (Rows cs) = PList (map (content h) cs)"

fun snapshot :: "heap \<Rightarrow> dbase \<Rightarrow> pyval" where
  "snapshot h (Dict d) = PDict (map (\<lambda>(k, sl). (k, view h sl)) d)"
| "snapshot h (Other v) = v"

text \<open>The database that \<^verbatim>\<open>json.loads\<close> builds from a plain value: every object is new.\<close>

fun slot_of :: "pyval \<Rightarrow> slot" where
  "slot_of (PList xs) = Rows (map Val xs)"
| "slot_of v = Plain v"

fun of_json :: "pyval \<Rightarrow> dbase" where
  "of_json (PDict d) = Dict (map (\<lambda>(k, v). (k, slot_of v)) d)"
| "of_json v = Other v"

text \<open>The entries of the database when it is a dictionary.\<close>

fun entries :: "dbase \<Rightarrow> (string \<times> slot) list option" where
  "entries (Dict d) = Some d"
| "entries (Other (PDict d)) = Some (map (\<lambda>(k, v). (k, slot_of v)) d)"
| "entries (Other v) = None"

text \<open>\<^verbatim>\<open>self.database[key]\<close> as an object, and \<^verbatim>\<open>self.database[key] = value\<close>.\<close>

definition db_getitem :: "dbase \<Rightarrow> string \<Rightarrow> error + slot" where
  "db_getitem db k =
     (case entries db of
        None \<Rightarrow> Inl TypeError
      | Some d \<Rightarrow> (case map_of d k of None \<Rightarrow> Inl (KeyError k) | Some sl \<Rightarrow> Inr sl))"

definition db_setitem :: "dbase \<Rightarrow> string \<Rightarrow> slot \<Rightarrow> error + dbase" where
  "db_setitem db k sl =
     (case entries db of
        None \<Rightarrow> Inl TypeError
      | Some d \<Rightarrow> Inr (Dict (AList.update k sl d)))"

text \<open>Iterating over a slot, its length, and \<^verbatim>\<open>obj.append(x)\<close>, a method of lists only.\<close>

fun slot_iter :: "slot \<Rightarrow> error + cell list" where
  "slot_iter (Rows cs) = Inr cs"
| "slot_iter (Plain v) = (case iter v of Inl e \<Rightarrow> Inl e | Inr xs \<Rightarrow> Inr (map Val xs))"

fun slot_len :: "slot \<Rightarrow> error + int" where
  "slot_len (Rows cs) = Inr (int (length cs))"
| "slot_len (Plain v) = len v"

fun slot_append :: "slot \<Rightarrow> cell \<Rightarrow> error + slot" where
  "slot_append (Rows cs) x = Inr (Rows (cs @ [x]))"
| "slot_append (Plain (PList xs)) x = Inr (Rows (map Val xs @ [x]))"
| "slot_append (Plain v) x = Inl AttributeError"

text \<open>\<^verbatim>\<open>row[k] = v\<close> on a cell: the dictionary at an address is changed in the heap, for
  every cell that refers to it.\<close>

fun cell_setitem :: "heap \<Rightarrow> cell \<Rightarrow> string \<Rightarrow> pyval \<Rightarrow> error + heap \<times> cell" where
  "cell_setitem h (Ref a) k v = Inr (h(a := AList.update k v (h a)), Ref a)"
| "cell_setitem h (Val x) k v =
     (case setitem x k v of Inl e \<Rightarrow> Inl e | Inr x' \<Rightarrow> Inr (h, Val x'))"

text \<open>The addresses in a list of cells, in order.\<close>

fun addrs :: "cell list \<Rightarrow> nat list" where
  "addrs [] = []"
| "addrs (Val v # cs) = addrs cs"
| "addrs (Ref a # cs) = a # addrs cs"

section \<open>The store\<close>

text \<open>
  The libraries the class calls: the Fernet cipher built from the key (\<^verbatim>\<open>self.cipher\<close>) and
  the \<^verbatim>\<open>json\<close> module. They are parameters of the model: \<open>'b\<close> is the type of the bytes in
  the backing file, \<open>'c\<close> the type of the serialised bytes.
\<close>

record ('b, 'c) lib =
  encrypt :: "'c \<Rightarrow> 'b"
  decrypt :: "'b \<Rightarrow> error + 'c"
  dumps :: "pyval \<Rightarrow> 'c"
  loads :: "'c \<Rightarrow> error + pyval"

text \<open>
  The state an \<^verbatim>\<open>EncryptedDatabase\<close> works on: \<^verbatim>\<open>self.database\<close>, the heap of the
  dictionaries that callers share with it, the contents of the file at \<^verbatim>\<open>self.db_file\<close>
  (\<open>None\<close> when the file does not exist) and the number of times the file has been written.
\<close>

record 'b store =
  database :: dbase
  objects :: heap
  backing_file :: "'b option"
  writes :: nat

text \<open>\<^verbatim>\<open>self.database\<close> as the value that the code reads and \<^verbatim>\<open>json.dumps\<close> writes.\<close>

definition current :: "'b store \<Rightarrow> pyval" where
  "current s = snapshot (objects s) (database s)"

definition fresh_database :: pyval where
  "fresh_database = PDict [(''_meta'', PDict [(''tables'', PDict [])])]"

definition load_or_initialize_db :: "('b, 'c) lib \<Rightarrow> 'b option \<Rightarrow> error + pyval" where
  "load_or_initialize_db L file =
     (case file of
        Some encrypted_data \<Rightarrow>
          (case decrypt L encrypted_data of
             Inl e \<Rightarrow> Inl e
           | Inr decrypted_data \<Rightarrow> loads L decrypted_data)
      | None \<Rightarrow> Inr fresh_database)"

text \<open>\<^verbatim>\<open>__init__\<close>, once the path and the cipher are fixed. The new store shares no dictionary
  with its caller yet.\<close>

definition init :: "('b, 'c) lib \<Rightarrow> 'b option \<Rightarrow> error + 'b store" where
  "init L file =
     (case load_or_initialize_db L file of
        Inl e \<Rightarrow> Inl e
      | Inr db \<Rightarrow>
          Inr \<lparr>database = of_json db, objects = (\<lambda>a. []), backing_file = file, writes = 0\<rparr>)"

definition save_db :: "('b, 'c) lib \<Rightarrow> 'b store \<Rightarrow> 'b store" where
  "save_db L s =
     s\<lparr>backing_file := Some (encrypt L (dumps L (current s))), writes := Suc (writes s)\<rparr>"

text \<open>\<^verbatim>\<open>self.database["_meta"]["tables"]\<close>.\<close>

definition meta_tables :: "pyval \<Rightarrow> error + pyval" where
  "meta_tables db =
     (case getitem db ''_meta'' of
        Inl e \<Rightarrow> Inl e
      | Inr meta \<Rightarrow> getitem meta ''tables'')"

text \<open>\<^verbatim>\<open>self.database["_meta"]["tables"][table_name]["columns"]\<close>.\<close>

definition table_columns :: "pyval \<Rightarrow> string \<Rightarrow> error + pyval" where
  "table_columns db table_name =
     (case meta_tables db of
        Inl e \<Rightarrow> Inl e
      | Inr tables \<Rightarrow>
          (case getitem tables table_name of
             Inl e \<Rightarrow> Inl e
           | Inr entry \<Rightarrow> getitem entry ''columns''))"

text \<open>
  \<^verbatim>\<open>self.database["_meta"]["tables"][table_name] = entry\<close>. The assignment changes the inner
  dictionary in place; here the two enclosing dictionaries are rebuilt around it. A list
  cannot be subscripted by \<^verbatim>\<open>"tables"\<close>.
\<close>

definition set_table_entry :: "dbase \<Rightarrow> string \<Rightarrow> pyval \<Rightarrow> error + dbase" where
  "set_table_entry db table_name entry =
     (case db_getitem db ''_meta'' of
        Inl e \<Rightarrow> Inl e
      | Inr (Rows cs) \<Rightarrow> Inl TypeError
      | Inr (Plain meta) \<Rightarrow>
          (case getitem meta ''tables'' of
             Inl e \<Rightarrow> Inl e
           | Inr tables \<Rightarrow>
               (case setitem tables table_name entry of
                  Inl e \<Rightarrow> Inl e
                | Inr tables' \<Rightarrow>
                    (case setitem meta ''tables'' tables' of
                       Inl e \<Rightarrow> Inl e
                     | Inr meta' \<Rightarrow> db_setitem db ''_meta'' (Plain meta')))))"

subsection \<open>define_table\<close>

definition define_table ::
  "('b, 'c) lib \<Rightarrow> 'b store \<Rightarrow> string \<Rightarrow> pyval \<Rightarrow> (error + unit) \<times> 'b store" where
  "define_table L s table_name columns =
     (case meta_tables (current s) of
        Inl e \<Rightarrow> (Inl e, s)
      | Inr tables \<Rightarrow>
          (case contains table_name tables of
             Inl e \<Rightarrow> (Inl e, s)
           | Inr True \<Rightarrow> (Inl (ValueError (TableAlreadyExists table_name)), s)
           | Inr False \<Rightarrow>
               if (case columns of PList cols \<Rightarrow> \<not> list_all is_str cols | _ \<Rightarrow> True)
               then (Inl (ValueError ColumnsMustBeListOfStrings), s)
               else
                 (case set_table_entry (database s) table_name
                         (PDict [(''columns'', columns)]) of
                    Inl e \<Rightarrow> (Inl e, s)
                  | Inr db1 \<Rightarrow>
                      (case db_setitem db1 table_name (Rows []) of
                         Inl e \<Rightarrow> (Inl e, s\<lparr>database := db1\<rparr>)
                       | Inr db2 \<Rightarrow> (Inr (), save_db L (s\<lparr>database := db2\<rparr>))))))"

subsection \<open>insert\<close>

text \<open>The row is the caller's object: it is appended as it is, not copied.\<close>

definition insert_row ::
  "('b, 'c) lib \<Rightarrow> 'b store \<Rightarrow> string \<Rightarrow> cell \<Rightarrow> (error + unit) \<times> 'b store" where
  "insert_row L s table_name row =
     (case meta_tables (current s) of
        Inl e \<Rightarrow> (Inl e, s)
      | Inr tables \<Rightarrow>
          (case contains table_name tables of
             Inl e \<Rightarrow> (Inl e, s)
           | Inr False \<Rightarrow> (Inl (ValueError (TableDoesNotExist table_name)), s)
           | Inr True \<Rightarrow>
               (case table_columns (current s) table_name of
                  Inl e \<Rightarrow> (Inl e, s)
                | Inr columns \<Rightarrow>
                    (case keys_method (content (objects s) row) of
                       Inl e \<Rightarrow> (Inl e, s)
                     | Inr keys \<Rightarrow>
                         (case py_set columns of
                            Inl e \<Rightarrow> (Inl e, s)
                          | Inr cs \<Rightarrow>
                              if set (map PStr keys) \<noteq> cs
                              then (Inl (ValueError RowDoesNotMatch), s)
                              else
                                (case db_getitem (database s) table_name of
                                   Inl e \<Rightarrow> (Inl e, s)
                                 | Inr rows \<Rightarrow>
                                     (case slot_append rows row of
                                        Inl e \<Rightarrow> (Inl e, s)
                                      | Inr rows' \<Rightarrow>
                                          (case db_setitem (database s) table_name rows' of
                                             Inl e \<Rightarrow> (Inl e, s)
                                           | Inr db' \<Rightarrow>
                                               (Inr (),
                                                save_db L (s\<lparr>database := db'\<rparr>))))))))))"

subsection \<open>read\<close>

text \<open>\<^verbatim>\<open>all(row[k] == v for k, v in filters.items())\<close>: the entries are tried in the order of
  the dictionary, and the first unequal one ends the test, so that the later keys are not
  looked up.\<close>

fun all_getitem :: "pydict \<Rightarrow> pyval \<Rightarrow> error + bool" where
  "all_getitem [] row = Inr True"
| "all_getitem ((k, v) # filters) row =
     (case getitem row k of
        Inl e \<Rightarrow> Inl e
      | Inr x \<Rightarrow> if py_eq x v then all_getitem filters row else Inr False)"

text \<open>\<^verbatim>\<open>[row for row in rows if all(...)]\<close>.\<close>

fun read_rows :: "pydict \<Rightarrow> pyval list \<Rightarrow> error + pyval list" where
  "read_rows filters [] = Inr []"
| "read_rows filters (row # rows) =
     (case all_getitem filters row of
        Inl e \<Rightarrow> Inl e
      | Inr b \<Rightarrow>
          (case read_rows filters rows of
             Inl e \<Rightarrow> Inl e
           | Inr out \<Rightarrow> Inr (if b then row # out else out)))"

text \<open>\<^verbatim>\<open>filters\<close> defaults to \<^verbatim>\<open>None\<close>; \<^verbatim>\<open>if filters:\<close> is false for \<^verbatim>\<open>None\<close> and for the
  empty dictionary. The call changes nothing, so it returns its result only.\<close>

definition read :: "'b store \<Rightarrow> string \<Rightarrow> pydict option \<Rightarrow> error + pyval" where
  "read s table_name filters =
     (case meta_tables (current s) of
        Inl e \<Rightarrow> Inl e
      | Inr tables \<Rightarrow>
          (case contains table_name tables of
             Inl e \<Rightarrow> Inl e
           | Inr False \<Rightarrow> Inl (ValueError (TableDoesNotExist table_name))
           | Inr True \<Rightarrow>
               (case getitem (current s) table_name of
                  Inl e \<Rightarrow> Inl e
                | Inr rows \<Rightarrow>
                    (case filters of
                       None \<Rightarrow> Inr rows
                     | Some fs \<Rightarrow>
                         if fs = [] then Inr rows
                         else
                           (case iter rows of
                              Inl e \<Rightarrow> Inl e
                            | Inr rs \<Rightarrow>
                                (case read_rows fs rs of
                                   Inl e \<Rightarrow> Inl e
                                 | Inr out \<Rightarrow> Inr (PList out)))))))"

subsection \<open>update\<close>

text \<open>\<^verbatim>\<open>for key in updates.keys(): if key not in columns: raise ValueError(...)\<close>.\<close>

fun check_keys :: "string \<Rightarrow> pyval \<Rightarrow> string list \<Rightarrow> error + unit" where
  "check_keys table_name columns [] = Inr ()"
| "check_keys table_name columns (key # keys) =
     (case contains key columns of
        Inl e \<Rightarrow> Inl e
      | Inr False \<Rightarrow> Inl (ValueError (ColumnDoesNotExist key table_name))
      | Inr True \<Rightarrow> check_keys table_name columns keys)"

text \<open>\<^verbatim>\<open>all(row.get(k) == v for k, v in filters.items())\<close>, on the value of the row at the
  time of the test.\<close>

fun all_get :: "pydict \<Rightarrow> pyval \<Rightarrow> error + bool" where
  "all_get [] row = Inr True"
| "all_get ((k, v) # filters) row =
     (case get_method row k of
        Inl e \<Rightarrow> Inl e
      | Inr x \<Rightarrow> if py_eq x v then all_get filters row else Inr False)"

text \<open>\<^verbatim>\<open>for k, v in updates.items(): row[k] = v\<close>. Only the first assignment can fail (on a
  row that is no dictionary), so a failure leaves the row as it was.\<close>

fun apply_updates :: "pydict \<Rightarrow> heap \<Rightarrow> cell \<Rightarrow> error + heap \<times> cell" where
  "apply_updates [] h row = Inr (h, row)"
| "apply_updates ((k, v) # updates) h row =
     (case cell_setitem h row k v of
        Inl e \<Rightarrow> Inl e
      | Inr (h', row') \<Rightarrow> apply_updates updates h' row')"

text \<open>
  The loop over the rows, with the counter \<^verbatim>\<open>updated_rows\<close>. Each row is tested as the
  heap is when the loop reaches it, and changed in the heap: a dictionary that is the row
  of two cells is tested twice, the second time as the first visit left it. The loop
  returns the heap and the rows as it leaves them together with the outcome: an exception
  in the middle of the loop leaves the rows before it updated.
\<close>

fun update_loop ::
  "pydict \<Rightarrow> pydict \<Rightarrow> heap \<Rightarrow> cell list \<Rightarrow> int \<Rightarrow> heap \<times> cell list \<times> (error + int)" where
  "update_loop filters updates h [] updated_rows = (h, [], Inr updated_rows)"
| "update_loop filters updates h (row # rows) updated_rows =
     (case all_get filters (content h row) of
        Inl e \<Rightarrow> (h, row # rows, Inl e)
      | Inr False \<Rightarrow>
          (case update_loop filters updates h rows updated_rows of
             (h', rows', r) \<Rightarrow> (h', row # rows', r))
      | Inr True \<Rightarrow>
          (case apply_updates updates h row of
             Inl e \<Rightarrow> (h, row # rows, Inl e)
           | Inr (h1, row') \<Rightarrow>
               (case update_loop filters updates h1 rows (updated_rows + 1) of
                  (h', rows', r) \<Rightarrow> (h', row' # rows', r))))"

text \<open>
  The rows of a list are changed in place. What the loop iterates over when
  \<^verbatim>\<open>self.database[table_name]\<close> is no list (the keys of a dictionary, the characters of a
  string) are strings, which no assignment can change: the database is then as before.
\<close>

fun is_list_slot :: "slot \<Rightarrow> bool" where
  "is_list_slot (Rows cs) = True"
| "is_list_slot (Plain (PList xs)) = True"
| "is_list_slot (Plain v) = False"

definition store_rows :: "dbase \<Rightarrow> string \<Rightarrow> slot \<Rightarrow> cell list \<Rightarrow> dbase" where
  "store_rows db table_name old rows' =
     (if is_list_slot old
      then (case db_setitem db table_name (Rows rows') of Inl e \<Rightarrow> db | Inr db' \<Rightarrow> db')
      else db)"

definition update ::
  "('b, 'c) lib \<Rightarrow> 'b store \<Rightarrow> string \<Rightarrow> pydict \<Rightarrow> pydict \<Rightarrow> (error + int) \<times> 'b store" where
  "update L s table_name filters updates =
     (case meta_tables (current s) of
        Inl e \<Rightarrow> (Inl e, s)
      | Inr tables \<Rightarrow>
          (case contains table_name tables of
             Inl e \<Rightarrow> (Inl e, s)
           | Inr False \<Rightarrow> (Inl (ValueError (TableDoesNotExist table_name)), s)
           | Inr True \<Rightarrow>
               (case table_columns (current s) table_name of
                  Inl e \<Rightarrow> (Inl e, s)
                | Inr columns \<Rightarrow>
                    (case check_keys table_name columns (map fst updates) of
                       Inl e \<Rightarrow> (Inl e, s)
                     | Inr u \<Rightarrow>
                         (case db_getitem (database s) table_name of
                            Inl e \<Rightarrow> (Inl e, s)
                          | Inr old \<Rightarrow>
                              (case slot_iter old of
                                 Inl e \<Rightarrow> (Inl e, s)
                               | Inr rows \<Rightarrow>
                                   (case update_loop filters updates (objects s) rows 0 of
                                      (h', rows', Inl e) \<Rightarrow>
                                        (Inl e,
                                         s\<lparr>database :=
                                             store_rows (database s) table_name old rows',
                                           objects := h'\<rparr>)
                                    | (h', rows', Inr updated_rows) \<Rightarrow>
                                        (Inr updated_rows,
                                         save_db L
                                           (s\<lparr>database :=
                                               store_rows (database s) table_name old rows',
                                              objects := h'\<rparr>)))))))))"

subsection \<open>delete\<close>

text \<open>\<^verbatim>\<open>[row for row in rows if not all(row.get(k) == v for k, v in filters.items())]\<close>:
  the new list holds the same objects.\<close>

fun delete_rows :: "pydict \<Rightarrow> heap \<Rightarrow> cell list \<Rightarrow> error + cell list" where
  "delete_rows filters h [] = Inr []"
| "delete_rows filters h (row # rows) =
     (case all_get filters (content h row) of
        Inl e \<Rightarrow> Inl e
      | Inr b \<Rightarrow>
          (case delete_rows filters h rows of
             Inl e \<Rightarrow> Inl e
           | Inr out \<Rightarrow> Inr (if \<not> b then row # out else out)))"

definition delete ::
  "('b, 'c) lib \<Rightarrow> 'b store \<Rightarrow> string \<Rightarrow> pydict \<Rightarrow> (error + int) \<times> 'b store" where
  "delete L s table_name filters =
     (case meta_tables (current s) of
        Inl e \<Rightarrow> (Inl e, s)
      | Inr tables \<Rightarrow>
          (case contains table_name tables of
             Inl e \<Rightarrow> (Inl e, s)
           | Inr False \<Rightarrow> (Inl (ValueError (TableDoesNotExist table_name)), s)
           | Inr True \<Rightarrow>
               (case db_getitem (database s) table_name of
                  Inl e \<Rightarrow> (Inl e, s)
                | Inr old \<Rightarrow>
                    (case slot_len old of
                       Inl e \<Rightarrow> (Inl e, s)
                     | Inr original_count \<Rightarrow>
                         (case slot_iter old of
                            Inl e \<Rightarrow> (Inl e, s)
                          | Inr rows \<Rightarrow>
                              (case delete_rows filters (objects s) rows of
                                 Inl e \<Rightarrow> (Inl e, s)
                               | Inr kept \<Rightarrow>
                                   (case db_setitem (database s) table_name (Rows kept) of
                                      Inl e \<Rightarrow> (Inl e, s)
                                    | Inr db' \<Rightarrow>
                                        (Inr (original_count - int (length kept)),
                                         save_db L (s\<lparr>database := db'\<rparr>)))))))))"

subsection \<open>The registry\<close>

text \<open>\<^verbatim>\<open>list(self.database["_meta"]["tables"].keys())\<close>: \<^verbatim>\<open>keys\<close> is a method of
  dictionaries only.\<close>

definition list_tables :: "'b store \<Rightarrow> error + string list" where
  "list_tables s =
     (case meta_tables (current s) of
        Inl e \<Rightarrow> Inl e
      | Inr tables \<Rightarrow>
          (case tables of PDict d \<Rightarrow> Inr (map fst d) | _ \<Rightarrow> Inl AttributeError))"

definition get_table_schema :: "'b store \<Rightarrow> string \<Rightarrow> error + pyval" where
  "get_table_schema s table_name =
     (case meta_tables (current s) of
        Inl e \<Rightarrow> Inl e
      | Inr tables \<Rightarrow>
          (case contains table_name tables of
             Inl e \<Rightarrow> Inl e
           | Inr False \<Rightarrow> Inl (ValueError (TableDoesNotExist table_name))
           | Inr True \<Rightarrow> table_columns (current s) table_name))"

section \<open>Records that are dictionaries\<close>

text \<open>
  On a row that is a dictionary the two tests of \<^verbatim>\<open>update\<close> and \<^verbatim>\<open>delete\<close> cannot raise.
  \<open>row_matches\<close> is \<^verbatim>\<open>all(row.get(k) == v for k, v in filters.items())\<close> on the value of
  such a row, and \<open>updated_row\<close> is its value after
  \<^verbatim>\<open>for k, v in updates.items(): row[k] = v\<close>.
\<close>

definition row_matches :: "pydict \<Rightarrow> pydict \<Rightarrow> bool" where
  "row_matches filters row =
     list_all (\<lambda>(k, v). py_eq (case map_of row k of None \<Rightarrow> PNone | Some x \<Rightarrow> x) v) filters"

fun updated_row :: "pydict \<Rightarrow> pydict \<Rightarrow> pydict" where
  "updated_row [] row = row"
| "updated_row ((k, v) # updates) row = updated_row updates (AList.update k v row)"

text \<open>
  The matching rule in the words of the specification of \<^verbatim>\<open>delete\<close>: every filter key equal
  to the record's value, a record missing a filter key treated as not matching. It is
  compared with \<open>row_matches\<close> below.
\<close>

definition spec_matches :: "pydict \<Rightarrow> pydict \<Rightarrow> bool" where
  "spec_matches filters row =
     list_all (\<lambda>(k, v). case map_of row k of None \<Rightarrow> False | Some x \<Rightarrow> py_eq x v) filters"

text \<open>No dictionary is the row of two cells of the table's list.\<close>

definition no_row_twice :: "'b store \<Rightarrow> string \<Rightarrow> bool" where
  "no_row_twice s table_name =
     (case db_getitem (database s) table_name of
        Inl e \<Rightarrow> True
      | Inr rows \<Rightarrow> (case slot_iter rows of Inl e \<Rightarrow> True | Inr cs \<Rightarrow> distinct (addrs cs)))"

section \<open>Example stores\<close>

text \<open>
  A stand-in for the two libraries, on which the functions can be run: the cipher wraps the
  bytes in a one-element list and refuses anything else, and the deserialiser accepts
  dictionaries only.
\<close>

definition demo_lib :: "(pyval, pyval) lib" where
  "demo_lib =
     \<lparr>encrypt = (\<lambda>c. PList [c]),
      decrypt = (\<lambda>b. case b of PList [c] \<Rightarrow> Inr c | _ \<Rightarrow> Inl InvalidToken),
      dumps = (\<lambda>v. v),
      loads = (\<lambda>c. case c of PDict d \<Rightarrow> Inr c | _ \<Rightarrow> Inl JSONDecodeError)\<rparr>"

definition fresh_store :: "pyval store" where
  "fresh_store =
     \<lparr>database = of_json fresh_database, objects = (\<lambda>a. []), backing_file = None, writes = 0\<rparr>"

definition alice :: pydict where
  "alice = [(''id'', PInt 1), (''name'', PStr ''Alice'')]"

definition bob :: pydict where
  "bob = [(''id'', PInt 2), (''name'', PStr ''Bob'')]"

definition carol :: pydict where
  "carol = [(''name'', PStr ''Carol''), (''id'', PInt 3)]"

text \<open>The registry after \<^verbatim>\<open>define_table("t", ["id", "name"])\<close>.\<close>

definition users_meta :: slot where
  "users_meta =
     Plain (PDict [(''tables'',
       PDict [(''t'', PDict [(''columns'', PList [PStr ''id'', PStr ''name''])])])])"

text \<open>The store after \<^verbatim>\<open>define_table("t", ["id", "name"])\<close> and the insertion of the rows
  of Alice and Bob, two dictionaries that are inserted once.\<close>

definition users_database :: dbase where
  "users_database =
     Dict [(''_meta'', users_meta), (''t'', Rows [Val (PDict alice), Val (PDict bob)])]"

definition users_store :: "pyval store" where
  "users_store =
     \<lparr>database = users_database, objects = (\<lambda>a. []),
      backing_file = Some (PList [snapshot (\<lambda>a. []) users_database]), writes = 3\<rparr>"

text \<open>The store after \<^verbatim>\<open>define_table("t", ["id", "name"])\<close> and two insertions of one and the
  same dictionary, which the caller holds at address 0.\<close>

definition twice_database :: dbase where
  "twice_database = Dict [(''_meta'', users_meta), (''t'', Rows [Ref 0, Ref 0])]"

definition twice_store :: "pyval store" where
  "twice_store =
     \<lparr>database = twice_database, objects = (\<lambda>a. alice),
      backing_file = Some (PList [snapshot (\<lambda>a. alice) twice_database]), writes = 3\<rparr>"

section \<open>Facts about the values, the database and the registry\<close>

lemma read_None_D:
  assumes "read s t None = Inr v"
  shows "\<exists>tables. meta_tables (current s) = Inr tables \<and> contains t tables = Inr True
           \<and> getitem (current s) t = Inr v"
  using assms by (auto simp: read_def split: sum.splits bool.splits)

lemma get_table_schema_D:
  assumes "get_table_schema s t = Inr c"
  shows "\<exists>tables. meta_tables (current s) = Inr tables \<and> contains t tables = Inr True
           \<and> table_columns (current s) t = Inr c"
  using assms by (auto simp: get_table_schema_def split: sum.splits bool.splits)

lemma getitem_Inr_D: "getitem v k = Inr x \<Longrightarrow> \<exists>d. v = PDict d \<and> map_of d k = Some x"
  by (cases v) (auto split: option.splits)

lemma meta_tables_D:
  "meta_tables db = Inr tables \<Longrightarrow>
     \<exists>d m. db = PDict d \<and> map_of d ''_meta'' = Some (PDict m) \<and> map_of m ''tables'' = Some tables"
  by (auto simp: meta_tables_def split: sum.splits dest!: getitem_Inr_D)

lemma setitem_rows:
  assumes "meta_tables db = Inr tables" and "getitem db t = Inr (PList xs)"
  shows "\<exists>db'. setitem db t v = Inr db' \<and> meta_tables db' = Inr tables
           \<and> getitem db' t = Inr v
           \<and> (\<forall>t'. t' \<noteq> t \<longrightarrow> getitem db' t' = getitem db t')"
proof -
  from assms(1) obtain d m where d: "db = PDict d" "map_of d ''_meta'' = Some (PDict m)"
    "map_of m ''tables'' = Some tables"
    by (auto dest: meta_tables_D)
  from assms(2) d have "map_of d t = Some (PList xs)" by (auto split: option.splits)
  with d have ne: "t \<noteq> ''_meta''" by auto
  show ?thesis using d ne
    by (auto simp: meta_tables_def update_conv')
qed

lemma view_slot_of: "view h (slot_of v) = v"
  by (cases v) (simp_all add: comp_def)

lemma map_of_map_snd:
  "map_of (map (\<lambda>(k, x). (k, f x)) d) k = map_option f (map_of d k)"
  by (induction d) auto

lemma map_update_snd:
  "map (\<lambda>(k, x). (k, f x)) (AList.update k y d) = AList.update k (f y) (map (\<lambda>(k, x). (k, f x)) d)"
  by (induction d) auto

lemma snapshot_entries:
  "entries db = Some d \<Longrightarrow> snapshot h db = PDict (map (\<lambda>(k, sl). (k, view h sl)) d)"
proof (cases db)
  case (Dict d')
  assume "entries db = Some d"
  with Dict show ?thesis by simp
next
  case (Other v)
  assume "entries db = Some d"
  with Other obtain d0 where v: "v = PDict d0" and d: "d = map (\<lambda>(k, v). (k, slot_of v)) d0"
    by (cases v) auto
  have "map (\<lambda>(k, sl). (k, view h sl)) (map (\<lambda>(k, v). (k, slot_of v)) d0) = d0"
    by (induction d0) (auto simp: view_slot_of)
  with Other v d show ?thesis by simp
qed

lemma snapshot_no_entries: "entries db = None \<Longrightarrow> getitem (snapshot h db) k = Inl TypeError"
proof (cases db)
  case (Dict d)
  assume "entries db = None"
  with Dict show ?thesis by simp
next
  case (Other v)
  assume "entries db = None"
  with Other show ?thesis by (cases v) auto
qed

lemma getitem_snapshot:
  "getitem (snapshot h db) k =
     (case db_getitem db k of Inl e \<Rightarrow> Inl e | Inr sl \<Rightarrow> Inr (view h sl))"
proof (cases "entries db")
  case None
  then show ?thesis by (simp add: snapshot_no_entries db_getitem_def)
next
  case (Some d)
  then show ?thesis
    by (simp add: snapshot_entries db_getitem_def map_of_map_snd split: option.splits)
qed

lemma getitem_snapshot_D:
  "getitem (snapshot h db) k = Inr v \<Longrightarrow> \<exists>sl. db_getitem db k = Inr sl \<and> view h sl = v"
  by (auto simp: getitem_snapshot split: sum.splits)

lemma db_setitem_snapshot:
  "db_getitem db k0 = Inr sl0 \<Longrightarrow>
   \<exists>db'. db_setitem db k sl = Inr db' \<and>
     (\<forall>h. setitem (snapshot h db) k (view h sl) = Inr (snapshot h db'))"
  by (cases "entries db")
    (auto simp: db_getitem_def db_setitem_def snapshot_entries map_update_snd)

lemma db_getitem_setitem:
  "db_setitem db k sl = Inr db' \<Longrightarrow>
   db_getitem db' k' = (if k' = k then Inr sl else db_getitem db k')"
  by (cases "entries db") (auto simp: db_getitem_def db_setitem_def update_conv')

lemma view_list_D:
  assumes "view h sl = PList xs"
  shows "\<exists>cs. slot_iter sl = Inr cs \<and> map (content h) cs = xs"
    and "slot_len sl = Inr (int (length xs))"
    and "is_list_slot sl"
    and "\<exists>sl'. slot_append sl x = Inr sl' \<and> view h sl' = PList (xs @ [content h x])"
proof -
  show "\<exists>cs. slot_iter sl = Inr cs \<and> map (content h) cs = xs"
    using assms by (cases sl) (auto simp: comp_def)
  show "slot_len sl = Inr (int (length xs))"
    using assms by (cases sl) auto
  show "is_list_slot sl"
    using assms by (cases sl) auto
  show "\<exists>sl'. slot_append sl x = Inr sl' \<and> view h sl' = PList (xs @ [content h x])"
    using assms by (cases sl) (auto simp: comp_def)
qed

lemma is_list_slot_view: "is_list_slot sl \<Longrightarrow> \<exists>xs. view h sl = PList xs"
  by (cases sl rule: is_list_slot.cases) auto

lemma meta_tables_heap:
  assumes "meta_tables (snapshot h db) = Inr tables"
  shows "meta_tables (snapshot h' db) = Inr tables"
proof -
  from assms obtain meta where m: "getitem (snapshot h db) ''_meta'' = Inr meta"
    "getitem meta ''tables'' = Inr tables"
    by (auto simp: meta_tables_def split: sum.splits)
  from m(1) obtain sl where sl: "db_getitem db ''_meta'' = Inr sl" "view h sl = meta"
    by (auto dest: getitem_snapshot_D)
  from m(2) obtain d where "meta = PDict d" by (auto dest: getitem_Inr_D)
  with sl(2) have "sl = Plain meta" by (cases sl) auto
  with sl(1) m(2) show ?thesis by (simp add: meta_tables_def getitem_snapshot)
qed

lemma read_cong_db:
  "meta_tables (current s') = meta_tables (current s) \<Longrightarrow>
   getitem (current s') t = getitem (current s) t \<Longrightarrow> read s' t f = read s t f"
  by (simp add: read_def cong: sum.case_cong bool.case_cong)

lemma current_save_db: "current (save_db L s) = current s"
  by (simp add: save_db_def current_def)

lemma py_set_strs: "py_set (PList (map PStr cols)) = Inr (PStr ` set cols)"
  by (simp add: py_set_def list_all_iff)

lemma strs_eq_columns: "(set (map PStr ks) = PStr ` set cols) = (set ks = set cols)"
  by (simp add: inj_image_eq_iff inj_on_def)

lemma read_None_I:
  assumes "meta_tables (current s) = Inr tables" and "contains t tables = Inr True"
      and "getitem (current s) t = Inr v"
  shows "read s t None = Inr v"
  using assms by (simp add: read_def)

lemma current_saved:
  "current (save_db L (s\<lparr>database := db'\<rparr>)) = snapshot (objects s) db'"
  "current (save_db L (s\<lparr>database := db', objects := h'\<rparr>)) = snapshot h' db'"
  by (simp_all add: current_def save_db_def)

lemma table_slot_get:
  assumes "getitem (current s) t = Inr (PList xs)"
  shows "\<exists>sl. db_getitem (database s) t = Inr sl \<and> view (objects s) sl = PList xs"
  using assms by (auto simp: current_def dest: getitem_snapshot_D)

lemma table_slot_set:
  assumes "meta_tables (current s) = Inr tables"
      and "getitem (current s) t = Inr (PList xs)"
  shows "\<exists>db'. db_setitem (database s) t sl' = Inr db' \<and>
           (\<forall>h. meta_tables (snapshot h db') = Inr tables) \<and>
           (\<forall>h. getitem (snapshot h db') t = Inr (view h sl')) \<and>
           (\<forall>h t'. t' \<noteq> t \<longrightarrow>
              getitem (snapshot h db') t' = getitem (snapshot h (database s)) t')"
proof -
  let ?db = "database s"
  from table_slot_get [OF assms(2)] obtain sl where sl: "db_getitem ?db t = Inr sl"
    by blast
  from assms(1) obtain d m where "current s = PDict d" "map_of d ''_meta'' = Some (PDict m)"
    by (auto dest: meta_tables_D)
  with assms(2) have ne: "t \<noteq> ''_meta''" by (auto split: option.splits)
  from db_setitem_snapshot [OF sl, of t sl'] obtain db' where
    db': "db_setitem ?db t sl' = Inr db'" by blast
  note g = db_getitem_setitem [OF db']
  have a: "meta_tables (snapshot h db') = Inr tables" for h
  proof -
    from assms(1) have "meta_tables (snapshot h ?db) = Inr tables"
      unfolding current_def by (rule meta_tables_heap)
    with ne g [of "''_meta''"] show ?thesis
      by (simp add: meta_tables_def getitem_snapshot)
  qed
  have b: "getitem (snapshot h db') t = Inr (view h sl')" for h
    using g [of t] by (simp add: getitem_snapshot)
  have c: "getitem (snapshot h db') t' = getitem (snapshot h ?db) t'"
    if "t' \<noteq> t" for h t'
    using that g [of t'] by (simp add: getitem_snapshot)
  show ?thesis
  proof (intro exI conjI allI impI)
    show "db_setitem ?db t sl' = Inr db'" by (rule db')
  qed (simp_all add: a b c)
qed

lemma all_get_dict: "all_get f (PDict r) = Inr (row_matches f r)"
  by (induction f) (auto simp: row_matches_def)

lemma content_dict_cases:
  "content h c = PDict r \<Longrightarrow> c = Val (PDict r) \<or> (\<exists>a. c = Ref a \<and> h a = r)"
  by (cases c) auto

lemma delete_rows_dicts:
  "map (content h) cs = map PDict rows \<Longrightarrow>
   \<exists>kept. delete_rows f h cs = Inr kept \<and>
     map (content h) kept = map PDict (filter (\<lambda>r. \<not> row_matches f r) rows)"
proof (induction cs arbitrary: rows)
  case Nil
  then show ?case by simp
next
  case (Cons c cs)
  from Cons.prems obtain r rows' where rows: "rows = r # rows'" "content h c = PDict r"
    "map (content h) cs = map PDict rows'"
    by (cases rows) auto
  from Cons.IH [OF rows(3)] obtain kept where
    "delete_rows f h cs = Inr kept"
    "map (content h) kept = map PDict (filter (\<lambda>r. \<not> row_matches f r) rows')"
    by blast
  with rows show ?case by (simp add: all_get_dict)
qed

lemma count_filter_compl:
  "int (length rows) - int (length (filter (\<lambda>r. \<not> P r) rows)) = int (length (filter P rows))"
proof -
  have "length (filter P rows) + length (filter (\<lambda>r. \<not> P r) rows) = length rows"
    by (rule sum_length_filter_compl)
  then show ?thesis by linarith
qed

lemma delete_existing:
  assumes "read s t None = Inr (PList (map PDict rows))"
  shows "fst (delete L s t f) = Inr (int (length (filter (row_matches f) rows)))"
    and "read (snd (delete L s t f)) t None =
           Inr (PList (map PDict (filter (\<lambda>r. \<not> row_matches f r) rows)))"
    and "writes (snd (delete L s t f)) = Suc (writes s)"
proof -
  let ?kept = "filter (\<lambda>r. \<not> row_matches f r) rows"
  from assms obtain tables where
    tb: "meta_tables (current s) = Inr tables" "contains t tables = Inr True"
    and gi: "getitem (current s) t = Inr (PList (map PDict rows))"
    by (auto dest: read_None_D)
  from table_slot_get [OF gi] obtain sl where
    sl: "db_getitem (database s) t = Inr sl" "view (objects s) sl = PList (map PDict rows)"
    by blast
  from view_list_D(1,2) [OF sl(2)] obtain cs where
    cs: "slot_iter sl = Inr cs" "map (content (objects s)) cs = map PDict rows"
    and ln: "slot_len sl = Inr (int (length rows))"
    by auto
  from delete_rows_dicts [OF cs(2), of f] obtain kept where
    kept: "delete_rows f (objects s) cs = Inr kept"
    "map (content (objects s)) kept = map PDict ?kept"
    by blast
  from table_slot_set [OF tb(1) gi, of "Rows kept"] obtain db' where
    db': "db_setitem (database s) t (Rows kept) = Inr db'"
    "\<And>h. meta_tables (snapshot h db') = Inr tables"
    "\<And>h. getitem (snapshot h db') t = Inr (view h (Rows kept))"
    by blast
  from kept(2) have len: "length kept = length ?kept"
    by (metis length_map)
  have run: "delete L s t f =
      (Inr (int (length rows) - int (length ?kept)), save_db L (s\<lparr>database := db'\<rparr>))"
    using tb sl(1) cs(1) ln kept(1) db'(1) len by (simp add: delete_def)
  from run show "fst (delete L s t f) = Inr (int (length (filter (row_matches f) rows)))"
    by (simp add: count_filter_compl)
  have "read (save_db L (s\<lparr>database := db'\<rparr>)) t None = Inr (PList (map PDict ?kept))"
    using tb(2) db'(2,3) [of "objects s"] kept(2)
    by (intro read_None_I [where tables = tables]) (simp_all add: current_saved)
  with run show "read (snd (delete L s t f)) t None = Inr (PList (map PDict ?kept))"
    by simp
  from run show "writes (snd (delete L s t f)) = Suc (writes s)"
    by (simp add: save_db_def)
qed

section \<open>Facts about rows that are dictionaries\<close>

lemma apply_updates_val:
  "apply_updates u h (Val (PDict r)) = Inr (h, Val (PDict (updated_row u r)))"
  by (induction u arbitrary: r) auto

lemma apply_updates_ref:
  "apply_updates u h (Ref a) = Inr (h(a := updated_row u (h a)), Ref a)"
  by (induction u arbitrary: h) auto

lemma map_of_updated_row:
  "distinct (map fst u) \<Longrightarrow>
   map_of (updated_row u r) k = (case map_of u k of Some v \<Rightarrow> Some v | None \<Rightarrow> map_of r k)"
proof (induction u arbitrary: r)
  case Nil
  then show ?case by simp
next
  case (Cons p u)
  obtain k' v' where p: "p = (k', v')" by (cases p)
  from Cons.prems p have nin: "map_of u k' = None" and d: "distinct (map fst u)"
    by (auto simp: map_of_eq_None_iff)
  show ?case using Cons.IH [OF d, of "AList.update k' v' r"] nin p
    by (auto simp: update_conv' split: option.splits)
qed

lemma updated_row_fixed:
  "\<forall>(k, v) \<in> set u. map_of al k = Some v \<Longrightarrow> updated_row u al = al"
  by (induction u arbitrary: al) (auto simp: update_triv)

lemma updated_row_idem:
  assumes "distinct (map fst u)"
  shows "updated_row u (updated_row u r) = updated_row u r"
proof (rule updated_row_fixed, clarify)
  fix k v assume "(k, v) \<in> set u"
  with assms have "map_of u k = Some v" by simp
  with map_of_updated_row [OF assms, of r k]
  show "map_of (updated_row u r) k = Some v" by simp
qed

lemma content_upd_other:
  "a \<notin> set (addrs cs) \<Longrightarrow> map (content (h(a := x))) cs = map (content h) cs"
  by (induction cs rule: addrs.induct) auto

lemma update_loop_contents:
  assumes idem: "\<And>r. updated_row u (updated_row u r) = updated_row u r"
      and "map (content h0) cs = map PDict rows"
      and "\<forall>a. h a = h0 a \<or> h a = (if row_matches f (h0 a) then updated_row u (h0 a) else h0 a)"
  shows "\<exists>h' cs' n'. update_loop f u h cs n = (h', cs', Inr n') \<and>
           (\<forall>a. h' a = (if a \<in> set (addrs cs)
                         then (if row_matches f (h0 a) then updated_row u (h0 a) else h0 a)
                         else h a)) \<and>
           map (content h') cs' =
             map (\<lambda>r. PDict (if row_matches f r then updated_row u r else r)) rows"
  using assms(2,3)
proof (induction cs arbitrary: h n rows)
  case Nil
  then show ?case by simp
next
  case (Cons c cs)
  let ?g = "\<lambda>r. if row_matches f r then updated_row u r else r"
  from Cons.prems(1) obtain r rows' where rows: "rows = r # rows'" "content h0 c = PDict r"
    "map (content h0) cs = map PDict rows'"
    by (cases rows) auto
  from rows(2) consider (val) "c = Val (PDict r)" | (ref) a where "c = Ref a" "h0 a = r"
    by (auto dest: content_dict_cases)
  then show ?case
  proof cases
    case val
    from Cons.IH [OF rows(3) Cons.prems(2)] obtain h' cs' n' where
      ih: "update_loop f u h cs (if row_matches f r then n + 1 else n) = (h', cs', Inr n')"
      "\<forall>a. h' a = (if a \<in> set (addrs cs) then ?g (h0 a) else h a)"
      "map (content h') cs' = map (\<lambda>r. PDict (?g r)) rows'"
      by blast
    show ?thesis
      using val rows(1) ih
      by (cases "row_matches f r") (simp_all add: all_get_dict apply_updates_val)
  next
    case ref
    let ?h1 = "if row_matches f (h a) then h(a := updated_row u (h a)) else h"
    from Cons.prems(2) have ha: "h a = r \<or> h a = ?g r"
      using ref(2) by metis
    have h1a: "?h1 a = ?g r"
      using ha idem by (auto split: if_splits)
    have inv1: "\<forall>b. ?h1 b = h0 b \<or> ?h1 b = ?g (h0 b)"
    proof
      fix b
      show "?h1 b = h0 b \<or> ?h1 b = ?g (h0 b)"
      proof (cases "b = a")
        case True
        with h1a ref(2) show ?thesis by metis
      next
        case False
        with Cons.prems(2) show ?thesis by auto
      qed
    qed
    from Cons.IH [OF rows(3) inv1] obtain h' cs' n' where
      ih: "update_loop f u ?h1 cs (if row_matches f (h a) then n + 1 else n) = (h', cs', Inr n')"
      "\<forall>b. h' b = (if b \<in> set (addrs cs) then ?g (h0 b) else ?h1 b)"
      "map (content h') cs' = map (\<lambda>r. PDict (?g r)) rows'"
      by blast
    from ih(2) h1a ref(2) have h'a: "h' a = ?g r"
      by metis
    have heap: "\<forall>b. h' b = (if b \<in> set (addrs (c # cs)) then ?g (h0 b) else h b)"
    proof
      fix b
      show "h' b = (if b \<in> set (addrs (c # cs)) then ?g (h0 b) else h b)"
      proof (cases "b = a")
        case True
        with h'a ref show ?thesis by simp
      next
        case False
        with ih(2) ref(1) show ?thesis by simp
      qed
    qed
    have run: "update_loop f u h (c # cs) n = (h', c # cs', Inr n')"
      using ref(1) ih(1)
      by (cases "row_matches f (h a)") (simp_all add: all_get_dict apply_updates_ref)
    have "map (content h') (c # cs') = map (\<lambda>r. PDict (?g r)) rows"
      using ref(1) rows(1) ih(3) h'a by simp
    with run heap show ?thesis by blast
  qed
qed

lemma update_loop_count:
  assumes "map (content h) cs = map PDict rows" and "distinct (addrs cs)"
  shows "snd (snd (update_loop f u h cs n)) =
           Inr (n + int (length (filter (row_matches f) rows)))"
  using assms
proof (induction cs arbitrary: h n rows)
  case Nil
  then show ?case by simp
next
  case (Cons c cs)
  from Cons.prems(1) obtain r rows' where rows: "rows = r # rows'" "content h c = PDict r"
    "map (content h) cs = map PDict rows'"
    by (cases rows) auto
  from rows(2) consider (val) "c = Val (PDict r)" | (ref) a where "c = Ref a" "h a = r"
    by (auto dest: content_dict_cases)
  then show ?case
  proof cases
    case val
    with Cons.prems(2) have d: "distinct (addrs cs)" by simp
    from Cons.IH [OF rows(3) d] val rows(1) show ?thesis
      by (cases "row_matches f r")
        (simp_all add: all_get_dict apply_updates_val split_beta)
  next
    case ref
    with Cons.prems(2) have d: "distinct (addrs cs)" and nin: "a \<notin> set (addrs cs)" by simp_all
    from rows(3) nin have r3: "map (content (h(a := x))) cs = map PDict rows'" for x
      by (simp add: content_upd_other)
    show ?thesis
    proof (cases "row_matches f r")
      case True
      with ref have "snd (snd (update_loop f u h (c # cs) n)) =
          snd (snd (update_loop f u (h(a := updated_row u r)) cs (n + 1)))"
        by (simp add: all_get_dict apply_updates_ref split_beta)
      also have "\<dots> = Inr (n + 1 + int (length (filter (row_matches f) rows')))"
        by (rule Cons.IH [OF r3 d])
      finally show ?thesis using True rows(1) by simp
    next
      case False
      with ref have "snd (snd (update_loop f u h (c # cs) n)) =
          snd (snd (update_loop f u h cs n))"
        by (simp add: all_get_dict split_beta)
      also have "\<dots> = Inr (n + int (length (filter (row_matches f) rows')))"
        by (rule Cons.IH [OF rows(3) d])
      finally show ?thesis using False rows(1) by simp
    qed
  qed
qed

lemma update_loop_count_all:
  assumes "map (content h) cs = map PDict rows"
  shows "snd (snd (update_loop [] u h cs n)) = Inr (n + int (length rows))"
  using assms
proof (induction cs arbitrary: h n rows)
  case Nil
  then show ?case by simp
next
  case (Cons c cs)
  from Cons.prems(1) obtain r rows' where rows: "rows = r # rows'" "content h c = PDict r"
    "map (content h) cs = map PDict rows'"
    by (cases rows) auto
  from rows(2) consider (val) "c = Val (PDict r)" | (ref) a where "c = Ref a" "h a = r"
    by (auto dest: content_dict_cases)
  then show ?case
  proof cases
    case val
    from Cons.IH [OF rows(3)] val rows(1) show ?thesis
      by (simp add: apply_updates_val split_beta)
  next
    case ref
    have "\<exists>rows''. map (content (h(a := x))) cs = map PDict rows'' \<and> length rows'' = length rows'"
      for x
    proof -
      have "\<exists>r. content (h(a := x)) c' = PDict r" if "c' \<in> set cs" for c'
      proof -
        from that rows(3) obtain r' where "content h c' = PDict r'"
          by (metis (no_types, lifting) imageE image_eqI list.set_map)
        then show ?thesis by (cases c') auto
      qed
      then have "\<forall>c' \<in> set cs. \<exists>r. content (h(a := x)) c' = PDict r" by blast
      then obtain rr where rr: "\<forall>c' \<in> set cs. content (h(a := x)) c' = PDict (rr c')"
        by metis
      have "map (content (h(a := x))) cs = map PDict (map rr cs)"
        using rr by simp
      moreover from rows(3) have "length (map rr cs) = length rows'"
        by (metis length_map)
      ultimately show ?thesis by blast
    qed
    then obtain rows'' where
      r3: "map (content (h(a := updated_row u (h a)))) cs = map PDict rows''"
      "length rows'' = length rows'"
      by blast
    from ref have "snd (snd (update_loop [] u h (c # cs) n)) =
        snd (snd (update_loop [] u (h(a := updated_row u (h a))) cs (n + 1)))"
      by (simp add: apply_updates_ref split_beta)
    also have "\<dots> = Inr (n + 1 + int (length rows''))"
      by (rule Cons.IH [OF r3(1)])
    finally show ?thesis using r3(2) rows(1) by simp
  qed
qed

lemma contains_strs: "contains k (PList (map PStr cols)) = Inr (k \<in> set cols)"
  by (auto simp: list_ex_iff)

lemma check_keys_ok:
  "set keys \<subseteq> set cols \<Longrightarrow> check_keys t (PList (map PStr cols)) keys = Inr ()"
  by (induction keys) (simp_all add: contains_strs del: contains.simps)

lemma check_keys_bad:
  "\<not> set keys \<subseteq> set cols \<Longrightarrow>
   \<exists>k \<in> set keys. k \<notin> set cols \<and>
     check_keys t (PList (map PStr cols)) keys = Inl (ValueError (ColumnDoesNotExist k t))"
proof (induction keys)
  case Nil
  then show ?case by simp
next
  case (Cons key keys)
  show ?case
  proof (cases "key \<in> set cols")
    case True
    with Cons.prems have "\<not> set keys \<subseteq> set cols" by simp
    from Cons.IH [OF this] True show ?thesis
      by (auto simp: contains_strs simp del: contains.simps)
  next
    case False
    then show ?thesis
      by (simp add: contains_strs del: contains.simps)
  qed
qed

lemma row_matches_iff:
  "row_matches f r =
     (\<forall>(k, v) \<in> set f. case map_of r k of None \<Rightarrow> v = PNone | Some x \<Rightarrow> py_eq x v)"
proof -
  have "py_eq PNone v = (v = PNone)" for v by (cases v) auto
  then show ?thesis
    by (auto simp: row_matches_def list_all_iff split: option.splits)
qed

lemma update_existing:
  assumes "get_table_schema s t = Inr (PList (map PStr cols))"
      and "read s t None = Inr (PList (map PDict rows))"
      and "set (map fst u) \<subseteq> set cols"
      and "distinct (map fst u)"
  shows "\<exists>n. fst (update L s t f u) = Inr n"
    and "read (snd (update L s t f u)) t None =
           Inr (PList (map (\<lambda>r. PDict (if row_matches f r then updated_row u r else r)) rows))"
    and "writes (snd (update L s t f u)) = Suc (writes s)"
    and "no_row_twice s t \<Longrightarrow>
           fst (update L s t f u) = Inr (int (length (filter (row_matches f) rows)))"
    and "f = [] \<Longrightarrow> fst (update L s t f u) = Inr (int (length rows))"
proof -
  let ?h = "objects s"
  let ?rows' = "map (\<lambda>r. PDict (if row_matches f r then updated_row u r else r)) rows"
  from assms(2) obtain tables where
    tb: "meta_tables (current s) = Inr tables" "contains t tables = Inr True"
    and gi: "getitem (current s) t = Inr (PList (map PDict rows))"
    by (auto dest: read_None_D)
  from assms(1) have tc: "table_columns (current s) t = Inr (PList (map PStr cols))"
    by (auto dest: get_table_schema_D)
  from table_slot_get [OF gi] obtain sl where
    sl: "db_getitem (database s) t = Inr sl" "view ?h sl = PList (map PDict rows)"
    by blast
  from view_list_D(1) [OF sl(2)] obtain cs where
    cs: "slot_iter sl = Inr cs" "map (content ?h) cs = map PDict rows"
    by auto
  note li = view_list_D(3) [OF sl(2)]
  have inv: "\<forall>a. ?h a = ?h a \<or>
      ?h a = (if row_matches f (?h a) then updated_row u (?h a) else ?h a)"
    by simp
  from update_loop_contents [OF updated_row_idem [OF assms(4)] cs(2) inv, of 0]
  obtain h' cs' n' where
    loop: "update_loop f u ?h cs 0 = (h', cs', Inr n')"
    "map (content h') cs' = ?rows'"
    by blast
  from table_slot_set [OF tb(1) gi, of "Rows cs'"] obtain db' where
    db': "db_setitem (database s) t (Rows cs') = Inr db'"
    "\<And>h. meta_tables (snapshot h db') = Inr tables"
    "\<And>h. getitem (snapshot h db') t = Inr (view h (Rows cs'))"
    by blast
  have run: "update L s t f u =
      (Inr n', save_db L (s\<lparr>database := db', objects := h'\<rparr>))"
    using tb tc sl(1) cs(1) li loop(1) db'(1) check_keys_ok [OF assms(3), of t]
    by (simp add: update_def store_rows_def)
  from run show "\<exists>n. fst (update L s t f u) = Inr n"
    by simp
  have "read (save_db L (s\<lparr>database := db', objects := h'\<rparr>)) t None = Inr (PList ?rows')"
    using tb(2) db'(2,3) [of h'] loop(2)
    by (intro read_None_I [where tables = tables]) (simp_all add: current_saved)
  with run show "read (snd (update L s t f u)) t None = Inr (PList ?rows')"
    by simp
  from run show "writes (snd (update L s t f u)) = Suc (writes s)"
    by (simp add: save_db_def)
  from loop(1) have n': "snd (snd (update_loop f u ?h cs 0)) = Inr n'"
    by simp
  show "fst (update L s t f u) = Inr (int (length (filter (row_matches f) rows)))"
    if "no_row_twice s t"
  proof -
    from that sl(1) cs(1) have "distinct (addrs cs)"
      by (simp add: no_row_twice_def)
    from update_loop_count [OF cs(2) this, of f u 0] n' run show ?thesis
      by simp
  qed
  show "fst (update L s t f u) = Inr (int (length rows))" if "f = []"
    using update_loop_count_all [OF cs(2), of u 0] n' run that by simp
qed

text \<open>The example stores are what the calls of their descriptions leave behind.\<close>

lemma users_store_reachable:
  "snd (insert_row demo_lib
         (snd (insert_row demo_lib
                (snd (define_table demo_lib fresh_store ''t'' (PList [PStr ''id'', PStr ''name''])))
                ''t'' (Val (PDict alice))))
         ''t'' (Val (PDict bob))) = users_store"
  by (simp add: define_table_def insert_row_def fresh_store_def fresh_database_def
      meta_tables_def table_columns_def set_table_entry_def py_set_def save_db_def
      current_def db_getitem_def db_setitem_def
      demo_lib_def alice_def bob_def users_store_def users_database_def users_meta_def
      insert_commute)

lemma twice_store_reachable:
  "snd (insert_row demo_lib
         (snd (insert_row demo_lib
                (snd (define_table demo_lib (fresh_store\<lparr>objects := (\<lambda>a. alice)\<rparr>) ''t''
                        (PList [PStr ''id'', PStr ''name''])))
                ''t'' (Ref 0)))
         ''t'' (Ref 0)) = twice_store"
  by (simp add: define_table_def insert_row_def fresh_store_def fresh_database_def
      meta_tables_def table_columns_def set_table_entry_def py_set_def save_db_def
      current_def db_getitem_def db_setitem_def
      demo_lib_def alice_def twice_store_def twice_database_def users_meta_def
      insert_commute)

lemma users_schema:
  "get_table_schema users_store ''t'' = Inr (PList (map PStr [''id'', ''name'']))"
  by (simp add: get_table_schema_def users_store_def users_database_def users_meta_def
      current_def meta_tables_def table_columns_def)

lemma users_rows: "read users_store ''t'' None = Inr (PList (map PDict [alice, bob]))"
  by (simp add: read_def users_store_def users_database_def users_meta_def current_def
      meta_tables_def)

lemma twice_schema:
  "get_table_schema twice_store ''t'' = Inr (PList (map PStr [''id'', ''name'']))"
  by (simp add: get_table_schema_def twice_store_def twice_database_def users_meta_def
      current_def meta_tables_def table_columns_def)

lemma twice_rows: "read twice_store ''t'' None = Inr (PList (map PDict [alice, alice]))"
  by (simp add: read_def twice_store_def twice_database_def users_meta_def current_def
      meta_tables_def)

lemma users_no_row_twice: "no_row_twice users_store ''t''"
  by (simp add: no_row_twice_def users_store_def users_database_def db_getitem_def)

lemma twice_row_twice: "\<not> no_row_twice twice_store ''t''"
  by (simp add: no_row_twice_def twice_store_def twice_database_def db_getitem_def)

section \<open>The claims\<close>

subsection \<open>insert\<close>

text \<open>
  C4. For a registered table \<open>t\<close> whose columns are \<open>cols\<close> and whose rows are \<open>rows\<close>,
  \<^verbatim>\<open>insert(t, r)\<close> with a dictionary \<open>r\<close>, whether the caller shares it with the store or
  not, raises the \<^verbatim>\<open>ValueError\<close> "Row does not match table columns" (the specification's
  SchemaMismatchError) exactly when the set of keys of \<open>r\<close> differs from the set of columns,
  whether a column is missing or a key is extra, and then leaves the store as it was.
  Otherwise the call succeeds, the rows of \<open>t\<close> are the old rows followed by \<open>r\<close>, and every
  other table reads as before.
\<close>

theorem insert_schema_strict:
  assumes "get_table_schema s t = Inr (PList (map PStr cols))"
      and "read s t None = Inr (PList rows)"
      and "content (objects s) x = PDict row"
  shows "(set (map fst row) \<noteq> set cols \<longrightarrow>
            insert_row L s t x = (Inl (ValueError RowDoesNotMatch), s)) \<and>
         (set (map fst row) = set cols \<longrightarrow>
            fst (insert_row L s t x) = Inr () \<and>
            read (snd (insert_row L s t x)) t None = Inr (PList (rows @ [PDict row])) \<and>
            (\<forall>t' f. t' \<noteq> t \<longrightarrow> read (snd (insert_row L s t x)) t' f = read s t' f))"
proof -
  let ?h = "objects s"
  from assms(1) obtain tables where
    tb: "meta_tables (current s) = Inr tables" "contains t tables = Inr True"
    and tc: "table_columns (current s) t = Inr (PList (map PStr cols))"
    by (auto dest: get_table_schema_D)
  from assms(2) tb have gi: "getitem (current s) t = Inr (PList rows)"
    by (auto dest: read_None_D)
  from table_slot_get [OF gi] obtain sl where
    sl: "db_getitem (database s) t = Inr sl" "view ?h sl = PList rows"
    by blast
  from view_list_D(4) [OF sl(2), of x] assms(3) obtain sl' where
    sl': "slot_append sl x = Inr sl'" "view ?h sl' = PList (rows @ [PDict row])"
    by auto
  from table_slot_set [OF tb(1) gi, of sl'] obtain db' where
    db': "db_setitem (database s) t sl' = Inr db'"
    "\<And>h. meta_tables (snapshot h db') = Inr tables"
    "\<And>h. getitem (snapshot h db') t = Inr (view h sl')"
    "\<And>h t'. t' \<noteq> t \<Longrightarrow> getitem (snapshot h db') t' = getitem (snapshot h (database s)) t'"
    by blast
  have bad: "insert_row L s t x = (Inl (ValueError RowDoesNotMatch), s)"
    if "set (map fst row) \<noteq> set cols"
    using that tb tc assms(3)
    by (simp add: insert_row_def py_set_strs strs_eq_columns del: set_map map_map)
  have good: "insert_row L s t x = (Inr (), save_db L (s\<lparr>database := db'\<rparr>))"
    if "set (map fst row) = set cols"
    using that tb tc assms(3) sl(1) sl'(1) db'(1)
    by (simp add: insert_row_def py_set_strs strs_eq_columns del: set_map map_map)
  have r1: "read (save_db L (s\<lparr>database := db'\<rparr>)) t None = Inr (PList (rows @ [PDict row]))"
    using tb(2) db'(2,3) [of ?h] sl'(2)
    by (intro read_None_I [where tables = tables]) (simp_all add: current_saved)
  have r2: "read (save_db L (s\<lparr>database := db'\<rparr>)) t' f = read s t' f" if "t' \<noteq> t" for t' f
    using that tb(1) db'(2) [of ?h] db'(4) [of t' ?h]
    by (intro read_cong_db) (simp_all add: current_saved, simp_all add: current_def)
  show ?thesis using bad good r1 r2 by simp
qed

theorem insert_schema_strict_witness:
  "get_table_schema users_store ''t'' = Inr (PList (map PStr [''id'', ''name''])) \<and>
   read users_store ''t'' None = Inr (PList [PDict alice, PDict bob]) \<and>
   insert_row demo_lib users_store ''t'' (Val (PDict [(''id'', PInt 3)])) =
     (Inl (ValueError RowDoesNotMatch), users_store) \<and>
   insert_row demo_lib users_store ''t'' (Val (PDict ((''age'', PInt 30) # carol))) =
     (Inl (ValueError RowDoesNotMatch), users_store) \<and>
   fst (insert_row demo_lib users_store ''t'' (Val (PDict carol))) = Inr () \<and>
   read (snd (insert_row demo_lib users_store ''t'' (Val (PDict carol)))) ''t'' None =
     Inr (PList [PDict alice, PDict bob, PDict carol]) \<and>
   read (snd (insert_row demo_lib users_store ''t'' (Val (PDict carol)))) ''u'' None =
     Inl (ValueError (TableDoesNotExist ''u'')) \<and>
   read (snd (insert_row demo_lib twice_store ''t'' (Ref 0))) ''t'' None =
     Inr (PList [PDict alice, PDict alice, PDict alice])"
proof -
  note h1 = users_schema
  have h2: "read users_store ''t'' None = Inr (PList [PDict alice, PDict bob])"
    using users_rows by simp
  have x: "content (objects users_store) (Val (PDict row)) = PDict row" for row
    by simp
  have "''name'' \<notin> set (map fst [(''id'', PInt 3)])"
    and "''name'' \<in> set [''id'', ''name'']"
    by simp_all
  then have k1: "set (map fst [(''id'', PInt 3)]) \<noteq> set [''id'', ''name'']"
    by metis
  have "''age'' \<in> set (map fst ((''age'', PInt 30) # carol))"
    and "''age'' \<notin> set [''id'', ''name'']"
    by simp_all
  then have k2: "set (map fst ((''age'', PInt 30) # carol)) \<noteq> set [''id'', ''name'']"
    by metis
  have k3: "set (map fst carol) = set [''id'', ''name'']"
    by (auto simp: carol_def)
  have k4: "set (map fst alice) = set [''id'', ''name'']"
    by (auto simp: alice_def)
  have a: "insert_row demo_lib users_store ''t'' (Val (PDict [(''id'', PInt 3)])) =
      (Inl (ValueError RowDoesNotMatch), users_store)"
    using insert_schema_strict [OF h1 h2 x, of "[(''id'', PInt 3)]" demo_lib] k1 by blast
  have b: "insert_row demo_lib users_store ''t'' (Val (PDict ((''age'', PInt 30) # carol))) =
      (Inl (ValueError RowDoesNotMatch), users_store)"
    using insert_schema_strict [OF h1 h2 x, of "(''age'', PInt 30) # carol" demo_lib] k2
    by blast
  have c: "fst (insert_row demo_lib users_store ''t'' (Val (PDict carol))) = Inr () \<and>
      read (snd (insert_row demo_lib users_store ''t'' (Val (PDict carol)))) ''t'' None =
        Inr (PList ([PDict alice, PDict bob] @ [PDict carol]))"
    using insert_schema_strict [OF h1 h2 x, of carol demo_lib] k3 by blast
  from c have c': "read (snd (insert_row demo_lib users_store ''t'' (Val (PDict carol))))
        ''t'' None = Inr (PList [PDict alice, PDict bob, PDict carol])"
    by simp
  have "read users_store ''u'' None = Inl (ValueError (TableDoesNotExist ''u''))"
    by (simp add: read_def users_store_def users_database_def users_meta_def current_def
        meta_tables_def)
  moreover have "''u'' \<noteq> ''t''"
    by simp
  ultimately have c'': "read (snd (insert_row demo_lib users_store ''t'' (Val (PDict carol))))
        ''u'' None = Inl (ValueError (TableDoesNotExist ''u''))"
    using insert_schema_strict [OF h1 h2 x, of carol demo_lib] k3 by metis
  have y: "content (objects twice_store) (Ref 0) = PDict alice"
    by (simp add: twice_store_def)
  have "read (snd (insert_row demo_lib twice_store ''t'' (Ref 0))) ''t'' None =
        Inr (PList (map PDict [alice, alice] @ [PDict alice]))"
    using insert_schema_strict [OF twice_schema twice_rows y, of demo_lib] k4 by blast
  then have d: "read (snd (insert_row demo_lib twice_store ''t'' (Ref 0))) ''t'' None =
        Inr (PList [PDict alice, PDict alice, PDict alice])"
    by simp
  from h1 h2 a b c c' c'' d show ?thesis by blast
qed

subsection \<open>update with a column outside the schema\<close>

text \<open>
  C5. For a registered table \<open>t\<close> with columns \<open>cols\<close>, \<^verbatim>\<open>update(t, filters, updates)\<close> with a
  key of \<open>updates\<close> outside \<open>cols\<close> raises the \<^verbatim>\<open>ValueError\<close> "Column ... does not exist in
  table ..." (the specification's InvalidColumnError) for such a key, and the store it
  leaves is the store it was given: the same database, the same dictionaries, the same
  backing file, the same number of writes.
\<close>

theorem update_invalid_column:
  assumes "get_table_schema s t = Inr (PList (map PStr cols))"
      and "\<not> set (map fst u) \<subseteq> set cols"
  shows "\<exists>k \<in> set (map fst u). k \<notin> set cols \<and>
           update L s t f u = (Inl (ValueError (ColumnDoesNotExist k t)), s)"
proof -
  from assms(1) obtain tables where
    tb: "meta_tables (current s) = Inr tables" "contains t tables = Inr True"
    and tc: "table_columns (current s) t = Inr (PList (map PStr cols))"
    by (auto dest: get_table_schema_D)
  from check_keys_bad [OF assms(2), of t] obtain k where
    k: "k \<in> set (map fst u)" "k \<notin> set cols"
    "check_keys t (PList (map PStr cols)) (map fst u) = Inl (ValueError (ColumnDoesNotExist k t))"
    by blast
  have "update L s t f u = (Inl (ValueError (ColumnDoesNotExist k t)), s)"
    using tb tc k(3) by (simp add: update_def)
  with k(1,2) show ?thesis by blast
qed

theorem update_invalid_column_witness:
  "get_table_schema users_store ''t'' = Inr (PList (map PStr [''id'', ''name''])) \<and>
   \<not> set (map fst [(''bogus'', PInt 1)]) \<subseteq> set [''id'', ''name''] \<and>
   update demo_lib users_store ''t'' [] [(''bogus'', PInt 1)] =
     (Inl (ValueError (ColumnDoesNotExist ''bogus'' ''t'')), users_store)"
proof -
  note h1 = users_schema
  have h2: "\<not> set (map fst [(''bogus'', PInt 1)]) \<subseteq> set [''id'', ''name'']"
    by simp
  show ?thesis
    using h1 h2 update_invalid_column [OF h1 h2, of demo_lib "[]"]
    by simp
qed

subsection \<open>delete\<close>

text \<open>
  C6, as the code has it. For a registered table \<open>t\<close> whose rows are the records \<open>rows\<close>,
  \<^verbatim>\<open>delete(t, filters)\<close> returns the number of records that match \<open>filters\<close> and leaves the
  records that do not match, in their order. A record matches when, for every filter entry
  \<open>(k, v)\<close>, its value at \<open>k\<close> equals \<open>v\<close>, or it has no key \<open>k\<close> and \<open>v\<close> is \<^verbatim>\<open>None\<close>. With
  empty filters every record matches: the table is emptied and the former number of rows
  is returned. With filters that no record matches, 0 is returned and the rows are as
  before.
\<close>

theorem delete_removes_matching:
  assumes "read s t None = Inr (PList (map PDict rows))"
  shows "fst (delete L s t f) = Inr (int (length (filter (row_matches f) rows))) \<and>
         read (snd (delete L s t f)) t None =
           Inr (PList (map PDict (filter (\<lambda>r. \<not> row_matches f r) rows))) \<and>
         (\<forall>r. row_matches f r =
            (\<forall>(k, v) \<in> set f. case map_of r k of None \<Rightarrow> v = PNone | Some x \<Rightarrow> py_eq x v)) \<and>
         (f = [] \<longrightarrow>
            fst (delete L s t f) = Inr (int (length rows)) \<and>
            read (snd (delete L s t f)) t None = Inr (PList [])) \<and>
         ((\<forall>r \<in> set rows. \<not> row_matches f r) \<longrightarrow>
            fst (delete L s t f) = Inr 0 \<and>
            read (snd (delete L s t f)) t None = Inr (PList (map PDict rows)))"
proof -
  note d = delete_existing [OF assms, of L f]
  have c3: "\<forall>r. row_matches f r =
      (\<forall>(k, v) \<in> set f. case map_of r k of None \<Rightarrow> v = PNone | Some x \<Rightarrow> py_eq x v)"
    using row_matches_iff [of f] by blast
  have c4: "fst (delete L s t f) = Inr (int (length rows)) \<and>
      read (snd (delete L s t f)) t None = Inr (PList [])" if "f = []"
  proof -
    from that have "filter (row_matches f) rows = rows"
      and "filter (\<lambda>r. \<not> row_matches f r) rows = []"
      by (simp_all add: row_matches_def)
    with d(1,2) show ?thesis by simp
  qed
  have c5: "fst (delete L s t f) = Inr 0 \<and>
      read (snd (delete L s t f)) t None = Inr (PList (map PDict rows))"
    if "\<forall>r \<in> set rows. \<not> row_matches f r"
  proof -
    from that have "filter (row_matches f) rows = []"
      and "filter (\<lambda>r. \<not> row_matches f r) rows = rows"
      by (simp_all add: filter_empty_conv filter_id_conv)
    with d(1,2) show ?thesis by simp
  qed
  from d(1,2) c3 c4 c5 show ?thesis by blast
qed

text \<open>
  The specification's wording of C6 treats a record that lacks a filter key as not
  matching. A filter \<^verbatim>\<open>{"email": None}\<close> on the example store, whose records have no key
  \<^verbatim>\<open>email\<close>, removes both records.
\<close>

theorem delete_null_filter_counterexample:
  "read users_store ''t'' None = Inr (PList (map PDict [alice, bob])) \<and>
   \<not> spec_matches [(''email'', PNone)] alice \<and>
   \<not> spec_matches [(''email'', PNone)] bob \<and>
   fst (delete demo_lib users_store ''t'' [(''email'', PNone)]) = Inr 2 \<and>
   read (snd (delete demo_lib users_store ''t'' [(''email'', PNone)])) ''t'' None = Inr (PList [])"
proof -
  note h = users_rows
  have m: "row_matches [(''email'', PNone)] alice" "row_matches [(''email'', PNone)] bob"
    by (simp_all add: row_matches_def alice_def bob_def)
  have n: "\<not> spec_matches [(''email'', PNone)] alice" "\<not> spec_matches [(''email'', PNone)] bob"
    by (simp_all add: spec_matches_def alice_def bob_def)
  from delete_existing(1,2) [OF h, of demo_lib "[(''email'', PNone)]"] m
  have "fst (delete demo_lib users_store ''t'' [(''email'', PNone)]) = Inr 2"
    and "read (snd (delete demo_lib users_store ''t'' [(''email'', PNone)])) ''t'' None =
      Inr (PList [])"
    by simp_all
  with h n show ?thesis by blast
qed

text \<open>The theorem on the example stores: one match, empty filters, no match, and a
  dictionary that is stored twice.\<close>

theorem delete_removes_matching_witness:
  "read users_store ''t'' None = Inr (PList (map PDict [alice, bob])) \<and>
   fst (delete demo_lib users_store ''t'' [(''id'', PInt 2)]) = Inr 1 \<and>
   read (snd (delete demo_lib users_store ''t'' [(''id'', PInt 2)])) ''t'' None =
     Inr (PList [PDict alice]) \<and>
   fst (delete demo_lib users_store ''t'' []) = Inr 2 \<and>
   read (snd (delete demo_lib users_store ''t'' [])) ''t'' None = Inr (PList []) \<and>
   fst (delete demo_lib users_store ''t'' [(''id'', PInt 9)]) = Inr 0 \<and>
   read (snd (delete demo_lib users_store ''t'' [(''id'', PInt 9)])) ''t'' None =
     Inr (PList [PDict alice, PDict bob]) \<and>
   fst (delete demo_lib twice_store ''t'' [(''id'', PInt 1)]) = Inr 2"
proof -
  note h = users_rows
  have m: "\<not> row_matches [(''id'', PInt 2)] alice" "row_matches [(''id'', PInt 2)] bob"
    "row_matches [(''id'', PInt 1)] alice"
    by (simp_all add: row_matches_def alice_def bob_def)
  have n: "\<forall>r \<in> set [alice, bob]. \<not> row_matches [(''id'', PInt 9)] r"
    by (simp add: row_matches_def alice_def bob_def)
  have a: "fst (delete demo_lib users_store ''t'' [(''id'', PInt 2)]) = Inr 1 \<and>
      read (snd (delete demo_lib users_store ''t'' [(''id'', PInt 2)])) ''t'' None =
        Inr (PList [PDict alice])"
    using delete_removes_matching [OF h, of demo_lib "[(''id'', PInt 2)]"] m by simp
  have b: "fst (delete demo_lib users_store ''t'' []) = Inr 2 \<and>
      read (snd (delete demo_lib users_store ''t'' [])) ''t'' None = Inr (PList [])"
    using delete_removes_matching [OF h, of demo_lib "[]"] by simp
  have c: "fst (delete demo_lib users_store ''t'' [(''id'', PInt 9)]) = Inr 0 \<and>
      read (snd (delete demo_lib users_store ''t'' [(''id'', PInt 9)])) ''t'' None =
        Inr (PList [PDict alice, PDict bob])"
    using delete_removes_matching [OF h, of demo_lib "[(''id'', PInt 9)]"] n by simp
  have d: "fst (delete demo_lib twice_store ''t'' [(''id'', PInt 1)]) = Inr 2"
    using delete_removes_matching [OF twice_rows, of demo_lib "[(''id'', PInt 1)]"] m by simp
  from h a b c d show ?thesis by blast
qed

subsection \<open>update\<close>






subsection \<open>A filter value of \<^verbatim>\<open>None\<close>\<close>



subsection \<open>read\<close>

text \<open>
  What \<^verbatim>\<open>read\<close> returns when no lookup fails: with empty filters all the records, and with
  filters whose keys every record has, the records that satisfy all the entries, in their
  order.
\<close>

lemma all_getitem_present:
  "set (map fst f) \<subseteq> set (map fst r) \<Longrightarrow> all_getitem f (PDict r) = Inr (row_matches f r)"
proof (induction f)
  case Nil
  then show ?case by (simp add: row_matches_def)
next
  case (Cons p f)
  obtain k v where p: "p = (k, v)" by (cases p)
  from Cons.prems p obtain x where x: "map_of r k = Some x"
    by (cases "map_of r k") (auto simp: map_of_eq_None_iff)
  from Cons.prems have "set (map fst f) \<subseteq> set (map fst r)" by simp
  from Cons.IH [OF this] p x show ?case
    by (simp add: row_matches_def)
qed

lemma read_rows_present:
  "\<forall>r \<in> set rows. set (map fst f) \<subseteq> set (map fst r) \<Longrightarrow>
   read_rows f (map PDict rows) = Inr (map PDict (filter (row_matches f) rows))"
  by (induction rows) (simp_all add: all_getitem_present)

lemma read_present_keys:
  assumes "read s t None = Inr (PList (map PDict rows))"
  shows "read s t (Some []) = Inr (PList (map PDict rows))"
    and "\<forall>r \<in> set rows. set (map fst f) \<subseteq> set (map fst r) \<Longrightarrow>
         read s t (Some f) = Inr (PList (map PDict (filter (row_matches f) rows)))"
proof -
  from assms obtain tables where
    tb: "meta_tables (current s) = Inr tables" "contains t tables = Inr True"
    and gi: "getitem (current s) t = Inr (PList (map PDict rows))"
    by (auto dest: read_None_D)
  from tb gi show "read s t (Some []) = Inr (PList (map PDict rows))"
    by (simp add: read_def)
  assume "\<forall>r \<in> set rows. set (map fst f) \<subseteq> set (map fst r)"
  from read_rows_present [OF this] tb gi
  show "read s t (Some f) = Inr (PList (map PDict (filter (row_matches f) rows)))"
    by (cases f) (simp_all add: read_def row_matches_def)
qed

text \<open>
  C1. The claim is that a record without a filter key fails to match and that \<^verbatim>\<open>read\<close> never
  raises on its account. \<^verbatim>\<open>read\<close> looks the key up with \<^verbatim>\<open>row[k]\<close>: on the example store,
  whose records have no key \<^verbatim>\<open>email\<close>, a filter on \<^verbatim>\<open>email\<close> raises \<^verbatim>\<open>KeyError\<close>, where
  \<^verbatim>\<open>update\<close> and \<^verbatim>\<open>delete\<close>, which use \<^verbatim>\<open>row.get(k)\<close>, find no match and return 0.
\<close>

theorem read_absent_key_raises:
  "read users_store ''t'' (Some [(''email'', PStr ''a@b'')]) = Inl (KeyError ''email'') \<and>
   fst (update demo_lib users_store ''t'' [(''email'', PStr ''a@b'')] []) = Inr 0 \<and>
   fst (delete demo_lib users_store ''t'' [(''email'', PStr ''a@b'')]) = Inr 0"
proof -
  have m: "\<not> row_matches [(''email'', PStr ''a@b'')] alice"
    "\<not> row_matches [(''email'', PStr ''a@b'')] bob"
    by (simp_all add: row_matches_def alice_def bob_def)
  have r: "read users_store ''t'' (Some [(''email'', PStr ''a@b'')]) = Inl (KeyError ''email'')"
    by (simp add: read_def users_store_def users_database_def users_meta_def current_def
        meta_tables_def alice_def)
  have e: "set (map fst ([] :: pydict)) \<subseteq> set [''id'', ''name'']" "distinct (map fst ([] :: pydict))"
    by simp_all
  have u: "fst (update demo_lib users_store ''t'' [(''email'', PStr ''a@b'')] []) = Inr 0"
    using update_existing(4) [OF users_schema users_rows e users_no_row_twice,
        of demo_lib "[(''email'', PStr ''a@b'')]"] m
    by simp
  have d: "fst (delete demo_lib users_store ''t'' [(''email'', PStr ''a@b'')]) = Inr 0"
    using delete_existing(1) [OF users_rows, of demo_lib "[(''email'', PStr ''a@b'')]"] m
    by simp
  from r u d show ?thesis by blast
qed

text \<open>
  C8. The claim is that \<^verbatim>\<open>read\<close> with non-empty filters returns the records in which every
  filter key maps to the filter's value. With the filters \<^verbatim>\<open>{"name": "Alice", "age": 30}\<close>
  no record of the example store qualifies, and the call raises \<^verbatim>\<open>KeyError\<close> at the record of
  Alice, whose name matches and which has no key \<^verbatim>\<open>age\<close>. When the earlier entry already
  fails on every record, the missing key is never looked up and the result is empty.
\<close>

theorem read_second_filter_key_raises:
  "read users_store ''t'' (Some [(''name'', PStr ''Alice''), (''age'', PInt 30)]) =
     Inl (KeyError ''age'') \<and>
   read users_store ''t'' (Some [(''name'', PStr ''Zed''), (''age'', PInt 30)]) =
     Inr (PList [])"
  by (simp add: read_def users_store_def users_database_def users_meta_def current_def
      meta_tables_def alice_def bob_def)

subsection \<open>define_table\<close>

lemma list_tables_D:
  "list_tables s = Inr names \<Longrightarrow>
     \<exists>d. meta_tables (current s) = Inr (PDict d) \<and> names = map fst d"
  by (auto simp: list_tables_def split: sum.splits pyval.splits)

lemma define_table_entry:
  assumes "meta_tables (current s) = Inr (PDict d)"
  shows "\<exists>db1 db2. set_table_entry (database s) name entry = Inr db1 \<and>
           db_setitem db1 name' sl = Inr db2"
proof -
  let ?h = "objects s"
  from assms obtain meta where m: "getitem (snapshot ?h (database s)) ''_meta'' = Inr meta"
    "getitem meta ''tables'' = Inr (PDict d)"
    by (auto simp: meta_tables_def current_def split: sum.splits)
  from m(1) obtain sl0 where sl0: "db_getitem (database s) ''_meta'' = Inr sl0"
    "view ?h sl0 = meta"
    by (auto dest: getitem_snapshot_D)
  from m(2) obtain dm where dm: "meta = PDict dm" by (auto dest: getitem_Inr_D)
  with sl0(2) have pl: "sl0 = Plain meta" by (cases sl0) auto
  from db_setitem_snapshot [OF sl0(1)] obtain db1 where
    db1: "db_setitem (database s) ''_meta''
            (Plain (PDict (AList.update ''tables'' (PDict (AList.update name entry d)) dm)))
          = Inr db1"
    by blast
  then have "db_getitem db1 ''_meta'' =
      Inr (Plain (PDict (AList.update ''tables'' (PDict (AList.update name entry d)) dm)))"
    by (simp add: db_getitem_setitem)
  from db_setitem_snapshot [OF this, of name' sl] obtain db2 where
    "db_setitem db1 name' sl = Inr db2" by blast
  moreover have "set_table_entry (database s) name entry = Inr db1"
    using sl0(1) pl dm m(2) db1 by (simp add: set_table_entry_def)
  ultimately show ?thesis by blast
qed

lemma all_strs: "list_all is_str (map PStr cs)"
  by (simp add: list_all_iff)

text \<open>
  C2, as the code has it. For a store whose registry lists the tables \<open>names\<close> and a name
  that is not among them, \<^verbatim>\<open>define_table(name, columns)\<close> raises the \<^verbatim>\<open>ValueError\<close> "Columns
  must be a list of strings" (the specification's InvalidSchemaError) when \<open>columns\<close> is no
  list or has an entry that is no string, and then leaves the store as it was; a list of
  strings, empty or with duplicates, is accepted.
\<close>

theorem define_table_rejects_non_strings:
  assumes "list_tables s = Inr names" and "name \<notin> set names"
  shows "((\<forall>cols. columns \<noteq> PList cols) \<or>
          (\<exists>cols c. columns = PList cols \<and> c \<in> set cols \<and> \<not> is_str c) \<longrightarrow>
            define_table L s name columns = (Inl (ValueError ColumnsMustBeListOfStrings), s)) \<and>
         ((\<exists>cs. columns = PList (map PStr cs)) \<longrightarrow> fst (define_table L s name columns) = Inr ())"
proof -
  from assms obtain d where
    mt: "meta_tables (current s) = Inr (PDict d)" and nd: "name \<notin> set (map fst d)"
    by (auto dest: list_tables_D)
  have bad: "define_table L s name columns = (Inl (ValueError ColumnsMustBeListOfStrings), s)"
    if "(\<forall>cols. columns \<noteq> PList cols) \<or>
        (\<exists>cols c. columns = PList cols \<and> c \<in> set cols \<and> \<not> is_str c)"
  proof -
    from that have "(case columns of PList cols \<Rightarrow> \<not> list_all is_str cols | _ \<Rightarrow> True)"
      by (auto simp: list_all_iff split: pyval.splits)
    with mt nd show ?thesis by (simp add: define_table_def)
  qed
  have good: "fst (define_table L s name columns) = Inr ()"
    if "\<exists>cs. columns = PList (map PStr cs)"
  proof -
    from that obtain cs where cs: "columns = PList (map PStr cs)" by blast
    from define_table_entry [OF mt, of name "PDict [(''columns'', columns)]" name "Rows []"]
    obtain db1 db2 where
      "set_table_entry (database s) name (PDict [(''columns'', columns)]) = Inr db1"
      "db_setitem db1 name (Rows []) = Inr db2"
      by blast
    then show ?thesis using mt nd cs all_strs [of cs]
      by (simp add: define_table_def)
  qed
  from bad good show ?thesis by blast
qed

text \<open>
  The claim C2 as stated fails: an empty list and a list with a duplicate are registered as
  they are, and for a name that is registered already the call raises "Table ... already
  exists" whatever the columns.
\<close>

theorem define_table_accepts_empty_and_duplicates:
  "fst (define_table demo_lib fresh_store ''t'' (PList [])) = Inr () \<and>
   get_table_schema (snd (define_table demo_lib fresh_store ''t'' (PList []))) ''t'' =
     Inr (PList []) \<and>
   fst (define_table demo_lib fresh_store ''t'' (PList [PStr ''a'', PStr ''a''])) = Inr () \<and>
   get_table_schema
       (snd (define_table demo_lib fresh_store ''t'' (PList [PStr ''a'', PStr ''a'']))) ''t'' =
     Inr (PList [PStr ''a'', PStr ''a'']) \<and>
   define_table demo_lib users_store ''t'' (PList [PInt 1]) =
     (Inl (ValueError (TableAlreadyExists ''t'')), users_store)"
proof -
  have a: "define_table demo_lib fresh_store ''t'' (PList cs) =
      (Inr (),
       save_db demo_lib
         (fresh_store\<lparr>database :=
            Dict [(''_meta'', Plain (PDict [(''tables'',
                      PDict [(''t'', PDict [(''columns'', PList cs)])])])),
                  (''t'', Rows [])]\<rparr>))"
    if "list_all is_str cs" for cs
    using that
    by (simp add: define_table_def fresh_store_def fresh_database_def meta_tables_def
        set_table_entry_def current_def db_getitem_def db_setitem_def)
  have b: "get_table_schema
      (save_db demo_lib
         (fresh_store\<lparr>database :=
            Dict [(''_meta'', Plain (PDict [(''tables'',
                      PDict [(''t'', PDict [(''columns'', PList cs)])])])),
                  (''t'', Rows [])]\<rparr>)) ''t'' = Inr (PList cs)" for cs
    by (simp add: get_table_schema_def save_db_def meta_tables_def table_columns_def
        current_def)
  have c: "define_table demo_lib users_store ''t'' (PList [PInt 1]) =
     (Inl (ValueError (TableAlreadyExists ''t'')), users_store)"
    by (simp add: define_table_def users_store_def users_database_def users_meta_def
        current_def meta_tables_def)
  have e: "list_all is_str []" "list_all is_str [PStr ''a'', PStr ''a'']"
    by simp_all
  show ?thesis
    using a [OF e(1)] a [OF e(2)] b c by simp
qed

theorem define_table_rejects_non_strings_witness:
  "list_tables users_store = Inr [''t''] \<and> ''u'' \<notin> set [''t''] \<and>
   define_table demo_lib users_store ''u'' (PStr ''id'') =
     (Inl (ValueError ColumnsMustBeListOfStrings), users_store) \<and>
   define_table demo_lib users_store ''u'' (PList [PStr ''id'', PInt 7]) =
     (Inl (ValueError ColumnsMustBeListOfStrings), users_store) \<and>
   fst (define_table demo_lib users_store ''u'' (PList [PStr ''id''])) = Inr ()"
proof -
  have h1: "list_tables users_store = Inr [''t'']"
    by (simp add: list_tables_def users_store_def users_database_def users_meta_def
        current_def meta_tables_def)
  have h2: "''u'' \<notin> set [''t'']"
    by simp
  have k1: "\<forall>cols. PStr ''id'' \<noteq> PList cols"
    by simp
  have k2: "\<exists>cols c. PList [PStr ''id'', PInt 7] = PList cols \<and> c \<in> set cols \<and> \<not> is_str c"
    by (rule exI [of _ "[PStr ''id'', PInt 7]"], rule exI [of _ "PInt 7"]) simp
  have k3: "\<exists>cs. PList [PStr ''id''] = PList (map PStr cs)"
    by (rule exI [of _ "[''id'']"]) simp
  have a: "define_table demo_lib users_store ''u'' (PStr ''id'') =
      (Inl (ValueError ColumnsMustBeListOfStrings), users_store)"
    using define_table_rejects_non_strings [OF h1 h2, of "PStr ''id''" demo_lib] k1 by blast
  have b: "define_table demo_lib users_store ''u'' (PList [PStr ''id'', PInt 7]) =
      (Inl (ValueError ColumnsMustBeListOfStrings), users_store)"
    using define_table_rejects_non_strings [OF h1 h2, of "PList [PStr ''id'', PInt 7]" demo_lib] k2
    by blast
  have c: "fst (define_table demo_lib users_store ''u'' (PList [PStr ''id''])) = Inr ()"
    using define_table_rejects_non_strings [OF h1 h2, of "PList [PStr ''id'']" demo_lib] k3
    by blast
  from h1 h2 a b c show ?thesis by blast
qed

text \<open>
  C3. The claim is that \<^verbatim>\<open>_meta\<close> is never a valid table name. \<^verbatim>\<open>define_table("_meta", ["a"])\<close>
  on the fresh store returns without an exception: the name passes both checks, and the
  assignment \<^verbatim>\<open>self.database[table_name] = []\<close> replaces the metadata section by an empty
  list, which is then saved. From then on every call that consults the registry raises
  \<^verbatim>\<open>TypeError\<close>.
\<close>

theorem define_table_meta_destroys_registry:
  "list_tables fresh_store = Inr [] \<and>
   define_table demo_lib fresh_store ''_meta'' (PList [PStr ''a'']) =
     (Inr (),
      \<lparr>database = Dict [(''_meta'', Rows [])],
       objects = objects fresh_store,
       backing_file = Some (PList [PDict [(''_meta'', PList [])]]),
       writes = 1\<rparr>) \<and>
   current (snd (define_table demo_lib fresh_store ''_meta'' (PList [PStr ''a''])))
     = PDict [(''_meta'', PList [])] \<and>
   list_tables (snd (define_table demo_lib fresh_store ''_meta'' (PList [PStr ''a''])))
     = Inl TypeError \<and>
   fst (define_table demo_lib
         (snd (define_table demo_lib fresh_store ''_meta'' (PList [PStr ''a''])))
         ''t'' (PList [PStr ''a'']))
     = Inl TypeError"
proof -
  have a: "define_table demo_lib fresh_store ''_meta'' (PList [PStr ''a'']) =
     (Inr (),
      \<lparr>database = Dict [(''_meta'', Rows [])],
       objects = objects fresh_store,
       backing_file = Some (PList [PDict [(''_meta'', PList [])]]),
       writes = 1\<rparr>)"
    by (simp add: define_table_def fresh_store_def fresh_database_def meta_tables_def
        set_table_entry_def save_db_def demo_lib_def current_def db_getitem_def
        db_setitem_def)
  have b: "list_tables fresh_store = Inr []"
    by (simp add: list_tables_def fresh_store_def fresh_database_def meta_tables_def
        current_def)
  show ?thesis
    unfolding a using b
    by (simp add: list_tables_def define_table_def meta_tables_def current_def)
qed

subsection \<open>Construction\<close>

text \<open>
  C9. \<^verbatim>\<open>_load_or_initialize_db\<close>, and with it the construction of the store once the cipher
  is built: without a backing file the database is the fresh one, whose registry is empty;
  with a backing file, an error of \<^verbatim>\<open>decrypt\<close> or of \<^verbatim>\<open>json.loads\<close> is the outcome of the
  construction, and no store is returned.
\<close>

theorem load_failure_is_fatal:
  "load_or_initialize_db L None = Inr fresh_database \<and>
   meta_tables fresh_database = Inr (PDict []) \<and>
   snapshot (\<lambda>a. []) (of_json fresh_database) = fresh_database \<and>
   init L None =
     Inr \<lparr>database = of_json fresh_database, objects = (\<lambda>a. []), backing_file = None,
          writes = 0\<rparr> \<and>
   (decrypt L data = Inl e \<longrightarrow>
      load_or_initialize_db L (Some data) = Inl e \<and> init L (Some data) = Inl e) \<and>
   (decrypt L data = Inr plain \<and> loads L plain = Inl e \<longrightarrow>
      load_or_initialize_db L (Some data) = Inl e \<and> init L (Some data) = Inl e)"
  by (simp add: load_or_initialize_db_def init_def fresh_database_def meta_tables_def)

theorem load_failure_is_fatal_witness:
  "decrypt demo_lib PNone = Inl InvalidToken \<and>
   init demo_lib (Some PNone) = Inl InvalidToken \<and>
   decrypt demo_lib (PList [PStr ''x'']) = Inr (PStr ''x'') \<and>
   loads demo_lib (PStr ''x'') = Inl JSONDecodeError \<and>
   init demo_lib (Some (PList [PStr ''x''])) = Inl JSONDecodeError \<and>
   init demo_lib None = Inr fresh_store \<and>
   current fresh_store = fresh_database"
proof -
  have h1: "decrypt demo_lib PNone = Inl InvalidToken"
    by (simp add: demo_lib_def)
  have h2: "decrypt demo_lib (PList [PStr ''x'']) = Inr (PStr ''x'')"
    by (simp add: demo_lib_def)
  have h3: "loads demo_lib (PStr ''x'') = Inl JSONDecodeError"
    by (simp add: demo_lib_def)
  have a: "init demo_lib (Some PNone) = Inl InvalidToken"
    using load_failure_is_fatal [of demo_lib PNone InvalidToken] h1 by blast
  have b: "init demo_lib (Some (PList [PStr ''x''])) = Inl JSONDecodeError"
    using load_failure_is_fatal [of demo_lib "PList [PStr ''x'']" JSONDecodeError "PStr ''x''"]
      h2 h3 by blast
  have c: "init demo_lib None = Inr fresh_store"
    using load_failure_is_fatal [of demo_lib] by (simp add: fresh_store_def)
  have d: "current fresh_store = fresh_database"
    by (simp add: current_def fresh_store_def fresh_database_def)
  from h1 h2 h3 a b c d show ?thesis by blast
qed

end
